theory Spec2Isabelle
  imports Main "HOL-Library.Signed_Division"
begin

section \<open>Data model (package models)\<close>

text \<open>
  A clock reading (\<^verbatim>\<open>time.Now()\<close>) is the number of nanoseconds since the Unix epoch,
  the value \<^verbatim>\<open>UnixNano()\<close> returns. Go's \<^verbatim>\<open>int\<close> is 64 bits wide on the
  platforms the services run on; no arithmetic of these programs leaves that range
  (the largest sum is an amount of at most 9000 plus a fee of at most 300), so
  \<^typ>\<open>int\<close> is used without wrap-around.
\<close>

type_synonym time = int

record Order =
  Order_ID :: string
  Order_Amount :: int
  Order_AdminFee :: int
  Order_Type :: string
  Order_Operator :: string
  Order_DestinationPhone :: string
  Order_Total :: int
  Order_Status :: string
  Order_CreatedAt :: time

record CreateOrderResponse =
  COR_ID :: string
  COR_Status :: string
  COR_Amount :: int
  COR_AdminFee :: int
  COR_Total :: int
  COR_Operator :: string
  COR_DestinationPhone :: string

text \<open>
  What a handler writes to its \<^verbatim>\<open>http.ResponseWriter\<close>: either \<^verbatim>\<open>http.Error\<close> with a
  status code and a text, or a JSON body written with the default status 200.
\<close>

datatype 'a http_response = HttpError int string | Json 'a

text \<open>
  An incoming request: its method and what \<^verbatim>\<open>json.NewDecoder(r.Body).Decode\<close> makes of
  the body (\<open>None\<close> when decoding fails).
\<close>

record 'a http_request =
  Method :: string
  Body :: "'a option"

section \<open>Order generation (package utils)\<close>

text \<open>
  Go's \<^verbatim>\<open>%\<close> on integers truncates towards zero: the remainder has the sign of the
  dividend. That is \<open>smod\<close>. Indexing a slice out of range panics; \<open>index\<close> returns
  \<open>None\<close> there.
\<close>

definition index :: "'a list \<Rightarrow> int \<Rightarrow> 'a option" where
  "index xs i = (if 0 \<le> i \<and> i < int (length xs) then Some (xs ! nat i) else None)"

fun digits :: "nat \<Rightarrow> string" where
  "digits n =
     (if n < 10 then [''0123456789'' ! n]
      else digits (n div 10) @ [''0123456789'' ! (n mod 10)])"

declare digits.simps [simp del]

text \<open>\<^verbatim>\<open>fmt.Sprintf("%d", n)\<close> and \<^verbatim>\<open>fmt.Sprintf("%02d", n)\<close> (zero padding goes after the sign).\<close>

definition fmt_d :: "int \<Rightarrow> string" where
  "fmt_d n = (if n < 0 then CHR ''-'' # digits (nat (- n)) else digits (nat n))"

definition fmt_02d :: "int \<Rightarrow> string" where
  "fmt_02d n =
     (if n < 0 then CHR ''-'' # digits (nat (- n))
      else if n < 10 then CHR ''0'' # digits (nat n)
      else digits (nat n))"

definition adminFee_of :: "string \<Rightarrow> int" where
  "adminFee_of operator =
     (if operator = ''indosat'' then 100
      else if operator = ''xl'' then 200
      else if operator = ''three'' then 300
      else 0)"

definition phonePrefix_of :: "string \<Rightarrow> string" where
  "phonePrefix_of operator =
     (if operator = ''indosat'' then ''0815-000-00''
      else if operator = ''xl'' then ''0817-000-00''
      else if operator = ''three'' then ''0896-000-00''
      else [])"

text \<open>
  \<^verbatim>\<open>GenerateRandomOrder\<close> reads the clock four times (operator, amount, phone suffix,
  creation time) and asks for a UUID (\<^verbatim>\<open>GenerateUUID7\<close> returns the empty string when the
  library fails). The readings are inputs here. The result is \<open>None\<close> where the Go code
  panics on a slice index.
\<close>

record order_env =
  now_operator :: time
  now_amount :: time
  now_suffix :: time
  now_created :: time
  uuid7 :: string

definition operators :: "string list" where
  "operators = [''indosat'', ''xl'', ''three'']"

definition amounts :: "int list" where
  "amounts = [1000, 2000, 3000, 4000, 5000, 6000, 7000, 8000, 9000]"

definition GenerateRandomOrder :: "order_env \<Rightarrow> Order option" where
  "GenerateRandomOrder e =
     (case index operators (now_operator e smod 3) of
        None \<Rightarrow> None
      | Some operator \<Rightarrow>
          (let adminFee = adminFee_of operator in
           case index amounts (now_amount e smod 9) of
             None \<Rightarrow> None
           | Some amount \<Rightarrow>
               (let phonePrefix = phonePrefix_of operator;
                    phoneSuffix = fmt_02d ((now_suffix e smod 99) + 1);
                    destinationPhone = phonePrefix @ phoneSuffix
                in Some \<lparr> Order_ID = uuid7 e,
                          Order_Amount = amount,
                          Order_AdminFee = adminFee,
                          Order_Type = ''phone_credit'',
                          Order_Operator = operator,
                          Order_DestinationPhone = destinationPhone,
                          Order_Total = amount + adminFee,
                          Order_Status = ''pending'',
                          Order_CreatedAt = now_created e \<rparr>)))"

section \<open>The relational store (package database)\<close>

text \<open>
  The four tables of \<^verbatim>\<open>CreateTables\<close>, each a list of rows in insertion order, and the
  next value of each \<^verbatim>\<open>AUTO_INCREMENT\<close> column. All services open the same database.

  The \<^verbatim>\<open>payload\<close> column of \<^verbatim>\<open>fulfillment_attempts\<close> holds a text that the Order Service
  builds in one of two ways; the row keeps the way and its arguments.
\<close>

record PaymentPaidMessage =
  PPM_OrderID :: string
  PPM_PaidAmount :: int
  PPM_PaidAt :: time
  PPM_CorrelationID :: string

record ExternalFulfillmentRequest =
  EFR_OrderID :: string
  EFR_DestinationPhone :: string
  EFR_Amount :: int
  EFR_CorrelationID :: string

datatype payload =
    Sprintf_payload string int string
      \<comment> \<open>\<^verbatim>\<open>fmt.Sprintf(`{"order_id":"%s","amount":%d,"destination_phone":"%s"}`, ...)\<close>\<close>
  | Marshal_payload ExternalFulfillmentRequest
      \<comment> \<open>\<^verbatim>\<open>json.Marshal(fulfillmentReq)\<close>\<close>

record FulfillmentAttempt =
  FA_ID :: int
  FA_OrderID :: string
  FA_AttemptNumber :: int
  FA_Payload :: payload
  FA_AttemptedAt :: time

record InternalPayment =
  Pay_ID :: int
  Pay_OrderID :: string
  Pay_PaidAmount :: int
  Pay_PaidAt :: time

record ExtOrder =
  Ext_ID :: int
  Ext_OrderID :: string
  Ext_DestinationPhone :: string
  Ext_Amount :: int
  Ext_Status :: string
  Ext_Error :: string
  Ext_ProcessedAt :: time

record database =
  internal_orders :: "Order list"
  internal_payments :: "InternalPayment list"
  ext_orders :: "ExtOrder list"
  fulfillment_attempts :: "FulfillmentAttempt list"
  next_payment_id :: int
  next_ext_id :: int
  next_attempt_id :: int

definition empty_db :: database where
  "empty_db = \<lparr> internal_orders = [], internal_payments = [], ext_orders = [],
                fulfillment_attempts = [], next_payment_id = 1, next_ext_id = 1,
                next_attempt_id = 1 \<rparr>"

text \<open>
  Every statement a service sends can fail (lost connection, server error); the Go code
  tests \<^verbatim>\<open>err\<close> after each. Whether a statement goes through is an input of each
  operation (\<open>ok\<close>); a statement that reports an error has changed nothing.
\<close>

text \<open>
  The time columns (\<^verbatim>\<open>created_at\<close>, \<^verbatim>\<open>paid_at\<close>, \<^verbatim>\<open>processed_at\<close>, \<^verbatim>\<open>attempted_at\<close>) are
  declared \<^verbatim>\<open>TIMESTAMP\<close>, without fractional seconds: of an instant written to such a
  column the store keeps the nearest whole second (MySQL rounds the fractional part that
  the column cannot hold). The instant is otherwise kept: the driver writes and reads
  the wall clock of the connection's location, and the statements of a service are
  taken to run in sessions of one time zone (the services set \<^verbatim>\<open>time_zone = '+07:00'\<close>).
\<close>

definition timestamp_column :: "time \<Rightarrow> time" where
  "timestamp_column t = ((t + 500000000) div 1000000000) * 1000000000"

text \<open>\<^verbatim>\<open>INSERT INTO internal_orders (...) VALUES (...)\<close>; \<^verbatim>\<open>id\<close> is the primary key.\<close>

definition insert_order :: "database \<Rightarrow> Order \<Rightarrow> bool \<Rightarrow> database option" where
  "insert_order db order ok =
     (if ok \<and> Order_ID order \<notin> Order_ID ` set (internal_orders db)
      then Some (db\<lparr>internal_orders := internal_orders db @
                   [order\<lparr>Order_CreatedAt := timestamp_column (Order_CreatedAt order)\<rparr>]\<rparr>)
      else None)"

text \<open>\<^verbatim>\<open>UPDATE internal_orders SET status = ? WHERE id = ?\<close>\<close>

definition set_status :: "string \<Rightarrow> string \<Rightarrow> Order \<Rightarrow> Order" where
  "set_status orderID st order =
     (if Order_ID order = orderID then order\<lparr>Order_Status := st\<rparr> else order)"

definition update_order_status :: "database \<Rightarrow> string \<Rightarrow> string \<Rightarrow> database" where
  "update_order_status db orderID st =
     db\<lparr>internal_orders := map (set_status orderID st) (internal_orders db)\<rparr>"

text \<open>\<^verbatim>\<open>SELECT id, amount, destination_phone FROM internal_orders WHERE id = ?\<close>\<close>

definition select_order :: "database \<Rightarrow> string \<Rightarrow> Order option" where
  "select_order db orderID = find (\<lambda>order. Order_ID order = orderID) (internal_orders db)"

text \<open>\<^verbatim>\<open>SELECT COUNT(*) FROM fulfillment_attempts WHERE order_id = ?\<close>\<close>

definition count_attempts :: "database \<Rightarrow> string \<Rightarrow> int" where
  "count_attempts db orderID =
     int (length (filter (\<lambda>a. FA_OrderID a = orderID) (fulfillment_attempts db)))"

text \<open>
  \<^verbatim>\<open>INSERT INTO fulfillment_attempts (order_id, attempt_number, payload) VALUES (?, ?, ?)\<close>;
  \<^verbatim>\<open>attempted_at\<close> takes the server's \<^verbatim>\<open>CURRENT_TIMESTAMP\<close> (\<open>db_now\<close>).
\<close>

definition insert_attempt :: "database \<Rightarrow> string \<Rightarrow> int \<Rightarrow> payload \<Rightarrow> time \<Rightarrow> database" where
  "insert_attempt db orderID attemptNumber pl db_now =
     db\<lparr>fulfillment_attempts := fulfillment_attempts db @
           [\<lparr> FA_ID = next_attempt_id db, FA_OrderID = orderID,
              FA_AttemptNumber = attemptNumber, FA_Payload = pl, FA_AttemptedAt = db_now \<rparr>],
        next_attempt_id := next_attempt_id db + 1\<rparr>"

section \<open>Order Service (internal-order)\<close>

subsection \<open>createOrder\<close>

record create_env =
  c_order_env :: order_env
  c_insert_ok :: bool

definition createOrder ::
  "database \<Rightarrow> string \<Rightarrow> create_env \<Rightarrow> (database \<times> CreateOrderResponse http_response) option" where
  "createOrder db method e =
     (if method \<noteq> ''POST'' then Some (db, HttpError 405 ''Method not allowed'')
      else case GenerateRandomOrder (c_order_env e) of
        None \<Rightarrow> None
      | Some order \<Rightarrow>
          (case insert_order db order (c_insert_ok e) of
             None \<Rightarrow> Some (db, HttpError 500 ''Internal server error'')
           | Some db' \<Rightarrow>
               Some (db', Json \<lparr> COR_ID = Order_ID order,
                                 COR_Status = Order_Status order,
                                 COR_Amount = Order_Amount order,
                                 COR_AdminFee = Order_AdminFee order,
                                 COR_Total = Order_Total order,
                                 COR_Operator = Order_Operator order,
                                 COR_DestinationPhone = Order_DestinationPhone order \<rparr>)))"

subsection \<open>handlePaymentPaid\<close>

text \<open>
  One invocation per delivery. The message is what \<^verbatim>\<open>json.Unmarshal(msg.Data, ...)\<close>
  yields (\<open>None\<close> when it fails). The result is the store after the handler and the
  arguments of the goroutine it starts with \<^verbatim>\<open>go processFulfillment(...)\<close>, if it starts one.
\<close>

record handler_env =
  h_generated_id :: string  \<comment> \<open>what \<^verbatim>\<open>GenerateCorrelationID()\<close> returns if called\<close>
  h_update_ok :: bool
  h_insert_ok :: bool
  h_count_ok :: bool
  h_db_now :: time

definition handlePaymentPaid ::
  "bool \<Rightarrow> database \<Rightarrow> PaymentPaidMessage option \<Rightarrow> handler_env
     \<Rightarrow> database \<times> (string \<times> string) option" where
  "handlePaymentPaid idempotencyCheck db msg e =
     (case msg of
        None \<Rightarrow> (db, None)
      | Some paymentMsg \<Rightarrow>
          (let correlationID =
                 (if PPM_CorrelationID paymentMsg = [] then h_generated_id e
                  else PPM_CorrelationID paymentMsg)
           in if \<not> h_update_ok e then (db, None)
              else
                (let db1 = update_order_status db (PPM_OrderID paymentMsg) ''paid'';
                     fulfillmentPayload = Sprintf_payload (PPM_OrderID paymentMsg) 0 [];
                     db2 = (if h_insert_ok e
                            then insert_attempt db1 (PPM_OrderID paymentMsg) 1
                                   fulfillmentPayload (h_db_now e)
                            else db1)
                 in if idempotencyCheck \<and> h_count_ok e
                         \<and> count_attempts db2 (PPM_OrderID paymentMsg) > 1
                    then (db2, None)
                    else (db2, Some (PPM_OrderID paymentMsg, correlationID)))))"

subsection \<open>processFulfillment\<close>

text \<open>
  The outcome of \<^verbatim>\<open>client.PostJSONWithTimeout\<close>: an error with its message (a transport
  failure or the deadline), or a response with its status code.
\<close>

datatype post_result = PostErr string | PostResp int

record dispatch_env =
  d_select_ok :: bool
  d_count_ok :: bool
  d_insert_ok :: bool
  d_db_now :: time
  d_post :: post_result
  d_update_ok :: bool

text \<open>
  \<^verbatim>\<open>processFulfillment\<close> runs in a goroutine of its own and sends its statements one by one,
  with no transaction around them. It first reads: it selects the order and counts the
  attempt rows of the order. \<open>processFulfillment_count\<close> is that part; its result is the
  request the task will send and the attempt number it has computed, \<open>None\<close> when the
  select fails or finds no row (the task then returns). The select and the count are two
  statements; they are taken in one step because the select reads the identifier, the
  amount and the phone number of the order, which no statement of the service changes.
\<close>

definition processFulfillment_count ::
  "database \<Rightarrow> string \<Rightarrow> string \<Rightarrow> dispatch_env
     \<Rightarrow> (ExternalFulfillmentRequest \<times> int) option" where
  "processFulfillment_count db orderID correlationID e =
     (case (if d_select_ok e then select_order db orderID else None) of
        None \<Rightarrow> None
      | Some order \<Rightarrow>
          (let fulfillmentReq = \<lparr> EFR_OrderID = Order_ID order,
                                   EFR_DestinationPhone = Order_DestinationPhone order,
                                   EFR_Amount = Order_Amount order,
                                   EFR_CorrelationID = correlationID \<rparr>;
               attemptNumber = (if d_count_ok e then count_attempts db orderID + 1 else 1)
           in Some (fulfillmentReq, attemptNumber)))"

text \<open>
  Then it writes, on the store as it is by then: it inserts the attempt row with the
  number computed before, sends the request, and on status 200 sets the order to
  \<^verbatim>\<open>fulfilment\<close>. The result is the store afterwards and the request sent. (The insert,
  the request and the update are taken in one step: what could come between them changes
  neither the row inserted nor the request, only which status update comes last.)
\<close>

definition processFulfillment_insert ::
  "database \<Rightarrow> string \<Rightarrow> ExternalFulfillmentRequest \<Rightarrow> int \<Rightarrow> dispatch_env
     \<Rightarrow> database \<times> ExternalFulfillmentRequest option" where
  "processFulfillment_insert db orderID fulfillmentReq attemptNumber e =
     (let db1 = (if d_insert_ok e
                 then insert_attempt db orderID attemptNumber
                        (Marshal_payload fulfillmentReq) (d_db_now e)
                 else db)
      in case d_post e of
           PostErr err \<Rightarrow> (db1, Some fulfillmentReq)
         | PostResp statusCode \<Rightarrow>
             (if statusCode = 200 \<and> d_update_ok e
              then (update_order_status db1 orderID ''fulfilment'', Some fulfillmentReq)
              else (db1, Some fulfillmentReq)))"

text \<open>
  The whole function, when nothing else writes to the store between its statements: the
  store after the task and the request it sent, if it got as far as sending one.
\<close>

definition processFulfillment ::
  "database \<Rightarrow> string \<Rightarrow> string \<Rightarrow> dispatch_env
     \<Rightarrow> database \<times> ExternalFulfillmentRequest option" where
  "processFulfillment db orderID correlationID e =
     (case processFulfillment_count db orderID correlationID e of
        None \<Rightarrow> (db, None)
      | Some (fulfillmentReq, attemptNumber) \<Rightarrow>
          processFulfillment_insert db orderID fulfillmentReq attemptNumber e)"

subsection \<open>Deliveries and detached dispatch tasks\<close>

text \<open>
  The handler runs once per delivery, one delivery after the other; each task it starts
  runs detached, at any later point, and tasks run side by side. A task that has been
  started has still to read; a task that has read holds its request and its attempt
  number and has still to write. A schedule is a list of actions: a delivery, or the
  next part of the \<open>i\<close>-th task that has not finished. So a delivery or a part of another
  task can come between the count and the insert of a task. The state records, for
  every decoded delivery, the order it names and whether the handler started a task for
  it, and every request sent out.
\<close>

datatype task =
    Started string string
  | Counted string ExternalFulfillmentRequest int

fun task_order :: "task \<Rightarrow> string" where
  "task_order (Started orderID correlationID) = orderID"
| "task_order (Counted orderID fulfillmentReq attemptNumber) = orderID"

datatype action =
    Deliver "PaymentPaidMessage option" handler_env
  | RunTask nat dispatch_env

record sys =
  sys_db :: database
  pending :: "task list"
  decisions :: "(string \<times> bool) list"
  called :: "ExternalFulfillmentRequest list"

definition init_sys :: "database \<Rightarrow> sys" where
  "init_sys db = \<lparr> sys_db = db, pending = [], decisions = [], called = [] \<rparr>"

fun step :: "bool \<Rightarrow> sys \<Rightarrow> action \<Rightarrow> sys" where
  "step idem s (Deliver msg e) =
     (case handlePaymentPaid idem (sys_db s) msg e of
        (db', started) \<Rightarrow>
          s\<lparr> sys_db := db',
             pending := pending s @
               (case started of None \<Rightarrow> []
                | Some (orderID, correlationID) \<Rightarrow> [Started orderID correlationID]),
             decisions := decisions s @
               (case msg of None \<Rightarrow> []
                | Some paymentMsg \<Rightarrow> [(PPM_OrderID paymentMsg, started \<noteq> None)]) \<rparr>)"
| "step idem s (RunTask i e) =
     (if i < length (pending s)
      then (case pending s ! i of
              Started orderID correlationID \<Rightarrow>
                (case processFulfillment_count (sys_db s) orderID correlationID e of
                   None \<Rightarrow> s\<lparr> pending := take i (pending s) @ drop (Suc i) (pending s) \<rparr>
                 | Some (fulfillmentReq, attemptNumber) \<Rightarrow>
                     s\<lparr> pending :=
                          (pending s)[i := Counted orderID fulfillmentReq attemptNumber] \<rparr>)
            | Counted orderID fulfillmentReq attemptNumber \<Rightarrow>
                (case processFulfillment_insert (sys_db s) orderID fulfillmentReq
                        attemptNumber e of
                   (db', sent) \<Rightarrow>
                     s\<lparr> sys_db := db',
                        pending := take i (pending s) @ drop (Suc i) (pending s),
                        called := called s @ (case sent of None \<Rightarrow> [] | Some r \<Rightarrow> [r]) \<rparr>))
      else s)"

definition run :: "bool \<Rightarrow> sys \<Rightarrow> action list \<Rightarrow> sys" where
  "run idem s acts = foldl (step idem) s acts"

text \<open>The handler's decisions for one order, in delivery order.\<close>

definition dispatched :: "string \<Rightarrow> sys \<Rightarrow> bool list" where
  "dispatched orderID s = map snd (filter (\<lambda>d. fst d = orderID) (decisions s))"

text \<open>Is this action a decodable delivery for the order?\<close>

fun delivery_for :: "string \<Rightarrow> action \<Rightarrow> bool" where
  "delivery_for orderID (Deliver (Some paymentMsg) e) = (PPM_OrderID paymentMsg = orderID)"
| "delivery_for orderID _ = False"

fun action_env_ok :: "action \<Rightarrow> bool" where
  "action_env_ok (Deliver msg e) = (h_update_ok e \<and> h_insert_ok e \<and> h_count_ok e)"
| "action_env_ok (RunTask i e) = True"

fun action_update_ok :: "action \<Rightarrow> bool" where
  "action_update_ok (Deliver msg e) = h_update_ok e"
| "action_update_ok (RunTask i e) = True"

section \<open>Payment Service (internal-payment)\<close>

record PaymentRequest =
  PR_OrderID :: string
  PR_PaidAmount :: int
  PR_CorrelationID :: string

record PaymentResponse =
  PResp_Status :: string

text \<open>\<^verbatim>\<open>DeterminePublishCount\<close>, as a function of the number \<^verbatim>\<open>r.Intn(100)\<close> draws.\<close>

definition DeterminePublishCount :: "int \<Rightarrow> int" where
  "DeterminePublishCount chance =
     (if chance < 70 then 1 else if chance < 90 then 2 else 3)"

text \<open>
  \<^verbatim>\<open>INSERT INTO internal_payments (order_id, paid_amount, paid_at) VALUES (?, ?, ?)
  ON DUPLICATE KEY UPDATE order_id = order_id\<close>, with \<^verbatim>\<open>UNIQUE KEY unique_order (order_id)\<close>:
  a row with that order identifier makes the statement an update that assigns a column
  to itself, which changes no row and is no error. The result is \<open>None\<close> when the
  statement reports an error (\<^verbatim>\<open>err != nil\<close>), which here happens only when the statement
  does not go through (\<open>ok\<close> is false), never because of the duplicate key.
\<close>

definition upsert_payment ::
  "database \<Rightarrow> string \<Rightarrow> int \<Rightarrow> time \<Rightarrow> bool \<Rightarrow> database option" where
  "upsert_payment db orderID paidAmount paidAt ok =
     (if \<not> ok then None
      else if orderID \<in> Pay_OrderID ` set (internal_payments db) then Some db
      else Some (db\<lparr>internal_payments := internal_payments db @
                       [\<lparr> Pay_ID = next_payment_id db, Pay_OrderID = orderID,
                          Pay_PaidAmount = paidAmount,
                          Pay_PaidAt = timestamp_column paidAt \<rparr>],
                    next_payment_id := next_payment_id db + 1\<rparr>))"

text \<open>
  What the handler does besides answering, in order: the sleep, each call of
  \<^verbatim>\<open>nats.Publish\<close> with its outcome, the one store statement with its outcome.
\<close>

datatype payment_event =
    Slept_ms int
  | Published PaymentPaidMessage
  | Publish_failed PaymentPaidMessage
  | Stored
  | Store_failed

record payment_env =
  p_generated_id :: string
  p_chance :: int
  p_paidAt :: time
  p_publish_ok :: "nat \<Rightarrow> bool"  \<comment> \<open>does the \<open>i\<close>-th \<^verbatim>\<open>nats.Publish\<close> of this request succeed\<close>
  p_store_ok :: bool

definition triggerPaymentPaid ::
  "int \<Rightarrow> database \<Rightarrow> PaymentRequest http_request \<Rightarrow> payment_env
     \<Rightarrow> database \<times> payment_event list \<times> PaymentResponse http_response" where
  "triggerPaymentPaid timeoutMs db r e =
     (if Method r \<noteq> ''POST'' then (db, [], HttpError 405 ''Method not allowed'')
      else case Body r of
        None \<Rightarrow> (db, [], HttpError 400 ''Invalid request body'')
      | Some req \<Rightarrow>
          (let correlationID =
                 (if PR_CorrelationID req = [] then p_generated_id e else PR_CorrelationID req);
               publishCount = DeterminePublishCount (p_chance e);
               paidAt = p_paidAt e;
               message = \<lparr> PPM_OrderID = PR_OrderID req, PPM_PaidAmount = PR_PaidAmount req,
                           PPM_PaidAt = paidAt, PPM_CorrelationID = correlationID \<rparr>;
               publishes = map (\<lambda>i. if p_publish_ok e i then Published message
                                      else Publish_failed message)
                               [0 ..< nat publishCount];
               stored = upsert_payment db (PR_OrderID req) (PR_PaidAmount req) paidAt
                          (p_store_ok e)
           in (case stored of None \<Rightarrow> db | Some db' \<Rightarrow> db',
               [Slept_ms timeoutMs] @ publishes
                 @ [case stored of None \<Rightarrow> Store_failed | Some db' \<Rightarrow> Stored],
               Json \<lparr> PResp_Status = ''success'' \<rparr>)))"

text \<open>Requests handled one after the other.\<close>

fun trigger_all ::
  "int \<Rightarrow> database \<Rightarrow> (PaymentRequest http_request \<times> payment_env) list \<Rightarrow> database" where
  "trigger_all timeoutMs db [] = db"
| "trigger_all timeoutMs db ((r, e) # rest) =
     trigger_all timeoutMs (fst (triggerPaymentPaid timeoutMs db r e)) rest"

definition payments_of :: "string \<Rightarrow> database \<Rightarrow> InternalPayment list" where
  "payments_of orderID db = filter (\<lambda>p. Pay_OrderID p = orderID) (internal_payments db)"

definition is_event_publish :: "payment_event \<Rightarrow> bool" where
  "is_event_publish ev = (case ev of Published m \<Rightarrow> True | Publish_failed m \<Rightarrow> True | _ \<Rightarrow> False)"

definition is_event_store :: "payment_event \<Rightarrow> bool" where
  "is_event_store ev = (case ev of Stored \<Rightarrow> True | Store_failed \<Rightarrow> True | _ \<Rightarrow> False)"

section \<open>External Fulfillment Service (external-order-fulfilment)\<close>

text \<open>
  A Go \<^verbatim>\<open>time.Time\<close> is an instant together with a location.
  \<^verbatim>\<open>Format("2006-01-02 15:04:05.000 -07:00")\<close> prints the wall clock of the instant in
  that location, cut to the millisecond, followed by the location's offset from UTC in
  hours and minutes. The text is kept as the pair of these two numbers, which it shows
  and which determine it: the wall clock in milliseconds (the instant plus the offset)
  and the offset in minutes. \<open>zone\<close> is the offset in seconds east of UTC.
\<close>

definition Format :: "int \<Rightarrow> time \<Rightarrow> int \<times> int" where
  "Format zone t = (t div 1000000 + 1000 * zone, zone sdiv 60)"

text \<open>
  A row read back carries \<^verbatim>\<open>processed_at\<close> as the instant the column kept, in the
  location of the connection, \<^verbatim>\<open>loc=Asia%2FJakarta\<close>, seven hours east of UTC.
\<close>

definition jakarta :: int where
  "jakarta = 25200"

record SuccessData =
  SD_OrderID :: string
  SD_VendorOrderID :: int
  SD_ProcessedAt :: "int \<times> int"

record ExternalFulfillmentResponse =
  Resp_Status :: string
  Resp_Error :: string
  Resp_Data :: "SuccessData option"

text \<open>
  \<^verbatim>\<open>SELECT ... FROM ext_orders WHERE order_id = ?\<close> read with \<^verbatim>\<open>QueryRow\<close>: the first
  matching row, \<^verbatim>\<open>sql.ErrNoRows\<close> when there is none.
\<close>

definition lookup_ext :: "database \<Rightarrow> string \<Rightarrow> ExtOrder option" where
  "lookup_ext db orderID = find (\<lambda>row. Ext_OrderID row = orderID) (ext_orders db)"

text \<open>
  \<^verbatim>\<open>INSERT INTO ext_orders (...) VALUES (...)\<close>: a plain insert; the result carries the
  new row's \<^verbatim>\<open>LastInsertId\<close>. The row holds what the column keeps of \<^verbatim>\<open>processedAt\<close>.
\<close>

definition insert_ext ::
  "database \<Rightarrow> ExternalFulfillmentRequest \<Rightarrow> string \<Rightarrow> string \<Rightarrow> time \<Rightarrow> database \<times> int" where
  "insert_ext db req status errorMsg processedAt =
     (db\<lparr>ext_orders := ext_orders db @
           [\<lparr> Ext_ID = next_ext_id db, Ext_OrderID = EFR_OrderID req,
              Ext_DestinationPhone = EFR_DestinationPhone req, Ext_Amount = EFR_Amount req,
              Ext_Status = status, Ext_Error = errorMsg,
              Ext_ProcessedAt = timestamp_column processedAt \<rparr>],
         next_ext_id := next_ext_id db + 1\<rparr>,
      next_ext_id db)"

record ext_env =
  x_generated_id :: string
  x_lookup_ok :: bool
  x_chance :: int       \<comment> \<open>\<^verbatim>\<open>rng.Intn(100)\<close>\<close>
  x_now_data :: time    \<comment> \<open>the reading for the provisional success data\<close>
  x_now_stored :: time  \<comment> \<open>\<^verbatim>\<open>processedAt := time.Now()\<close>, the value stored\<close>
  x_now_resp :: time    \<comment> \<open>the reading for the success data sent back\<close>
  x_insert_ok :: bool
  x_zone :: int         \<comment> \<open>the offset of the process's local zone, which \<^verbatim>\<open>time.Now()\<close> carries\<close>

text \<open>The answer built from a stored row.\<close>

definition stored_response :: "ExtOrder \<Rightarrow> ExternalFulfillmentResponse" where
  "stored_response existingOrder =
     \<lparr> Resp_Status = Ext_Status existingOrder,
       Resp_Error = Ext_Error existingOrder,
       Resp_Data = (if Ext_Status existingOrder = ''success''
                    then Some \<lparr> SD_OrderID = Ext_OrderID existingOrder,
                                SD_VendorOrderID = Ext_ID existingOrder,
                                SD_ProcessedAt = Format jakarta (Ext_ProcessedAt existingOrder) \<rparr>
                    else None) \<rparr>"

definition processOrder ::
  "bool \<Rightarrow> database \<Rightarrow> ExternalFulfillmentRequest http_request \<Rightarrow> ext_env
     \<Rightarrow> database \<times> ExternalFulfillmentResponse http_response" where
  "processOrder externalIdempotencyCheck db r e =
     (if Method r \<noteq> ''POST'' then (db, HttpError 405 ''Method not allowed'')
      else case Body r of
        None \<Rightarrow> (db, HttpError 400 ''Invalid request body'')
      | Some req \<Rightarrow>
          (case (if externalIdempotencyCheck \<and> x_lookup_ok e
                 then lookup_ext db (EFR_OrderID req) else None) of
             Some existingOrder \<Rightarrow> (db, Json (stored_response existingOrder))
           | None \<Rightarrow>
               (let chance = x_chance e;
                    status = (if chance < 10 then ''error'' else ''success'');
                    errorMsg = (if chance < 10 then ''Random error occurred'' else []);
                    responseData =
                      (if chance < 10 then None
                       else Some \<lparr> SD_OrderID = EFR_OrderID req, SD_VendorOrderID = 0,
                                   SD_ProcessedAt = Format (x_zone e) (x_now_data e) \<rparr>);
                    processedAt = x_now_stored e
                in if \<not> x_insert_ok e then (db, HttpError 500 ''Internal server error'')
                   else
                     (case insert_ext db req status errorMsg processedAt of
                        (db', lastInsertId) \<Rightarrow>
                          (let responseData' =
                                 (if status = ''success''
                                  then Some \<lparr> SD_OrderID = EFR_OrderID req,
                                              SD_VendorOrderID = lastInsertId,
                                              SD_ProcessedAt = Format (x_zone e) (x_now_resp e) \<rparr>
                                  else responseData)
                           in (db', Json \<lparr> Resp_Status = status, Resp_Error = errorMsg,
                                           Resp_Data = responseData' \<rparr>))))))"

text \<open>The same request sent again and again, each call with its own environment.\<close>

fun process_calls ::
  "bool \<Rightarrow> database \<Rightarrow> ExternalFulfillmentRequest http_request \<Rightarrow> ext_env list
     \<Rightarrow> database \<times> ExternalFulfillmentResponse http_response list" where
  "process_calls chk db r [] = (db, [])"
| "process_calls chk db r (e # es) =
     (case processOrder chk db r e of
        (db', resp) \<Rightarrow>
          (case process_calls chk db' r es of (db'', resps) \<Rightarrow> (db'', resp # resps)))"

definition post_request :: "'a \<Rightarrow> 'a http_request" where
  "post_request body = \<lparr> Method = ''POST'', Body = Some body \<rparr>"

section \<open>Simulation Harness (tooling)\<close>

text \<open>\<^verbatim>\<open>strings.Contains(s, substr)\<close>\<close>

primrec Contains :: "string \<Rightarrow> string \<Rightarrow> bool" where
  "Contains [] substr = (substr = [])"
| "Contains (c # cs) substr = (take (length substr) (c # cs) = substr \<or> Contains cs substr)"

text \<open>\<^verbatim>\<open>IsTimeoutError\<close>, on the message of a non-nil error.\<close>

definition IsTimeoutError :: "string \<Rightarrow> bool" where
  "IsTimeoutError err = Contains err ''timeout''"

text \<open>
  \<^verbatim>\<open>triggerPayment\<close>: the error it returns (its message), or \<open>None\<close> for \<^verbatim>\<open>nil\<close>, from
  the outcome of the one POST it sends to the Payment Service.
\<close>

definition triggerPayment :: "post_result \<Rightarrow> string option" where
  "triggerPayment res =
     (case res of
        PostErr err \<Rightarrow> (if IsTimeoutError err then Some ''timeout'' else Some err)
      | PostResp statusCode \<Rightarrow>
          (if statusCode \<noteq> 200
           then Some (''payment service returned status: '' @ fmt_d statusCode)
           else None))"

text \<open>
  What one iteration does that can be observed: its sleeps, its calls of
  \<^verbatim>\<open>triggerPayment\<close> and the lines it sends on the \<^verbatim>\<open>results\<close> channel, in order.
\<close>

datatype harness_event =
    Sleep_ms int
  | Trigger string int
  | Send string

record iteration_env =
  i_generated_id :: string
  i_create :: "string + CreateOrderResponse"
     \<comment> \<open>what the harness's \<^verbatim>\<open>createOrder()\<close> returns: an error (its text) or the response\<close>
  i_post :: "nat \<Rightarrow> post_result"
     \<comment> \<open>the outcome of the POST of the \<open>n\<close>-th call of \<^verbatim>\<open>triggerPayment\<close>\<close>

definition line_prefix :: "int \<Rightarrow> string \<Rightarrow> string" where
  "line_prefix iteration correlationID =
     ''Iteration '' @ fmt_d iteration @ '' ['' @ correlationID @ '']: ''"

definition success_line :: "int \<Rightarrow> string \<Rightarrow> CreateOrderResponse \<Rightarrow> string" where
  "success_line iteration correlationID orderResp =
     line_prefix iteration correlationID @ ''SUCCESS - Order: '' @ COR_ID orderResp
       @ '', Amount: '' @ fmt_d (COR_Total orderResp)"

definition timeout_line :: "int \<Rightarrow> string \<Rightarrow> CreateOrderResponse \<Rightarrow> string" where
  "timeout_line iteration correlationID orderResp =
     line_prefix iteration correlationID @ ''TIMEOUT after 3 retries - Order: '' @ COR_ID orderResp"

definition failed_payment_line :: "int \<Rightarrow> string \<Rightarrow> string \<Rightarrow> string" where
  "failed_payment_line iteration correlationID err =
     line_prefix iteration correlationID @ ''FAILED payment - '' @ err"

definition failed_line :: "int \<Rightarrow> string \<Rightarrow> CreateOrderResponse \<Rightarrow> string" where
  "failed_line iteration correlationID orderResp =
     line_prefix iteration correlationID @ ''FAILED - Order: '' @ COR_ID orderResp"

definition create_failed_line :: "int \<Rightarrow> string \<Rightarrow> string \<Rightarrow> string" where
  "create_failed_line iteration correlationID err =
     line_prefix iteration correlationID @ ''FAILED to create order - '' @ err"

text \<open>
  The loop \<^verbatim>\<open>for retry := 0; retry < 3; retry++\<close>, from the value of \<^verbatim>\<open>retry\<close> on:
  the final value of \<^verbatim>\<open>success\<close> and the events of the remaining rounds.
\<close>

function retry_loop ::
  "int \<Rightarrow> string \<Rightarrow> CreateOrderResponse \<Rightarrow> (nat \<Rightarrow> post_result) \<Rightarrow> int
     \<Rightarrow> bool \<times> harness_event list" where
  "retry_loop iteration correlationID orderResp post retry =
     (if retry < 3 then
        (let wait = (if retry > 0 then [Sleep_ms 100] else []);
             call = [Trigger (COR_ID orderResp) (COR_Total orderResp)]
         in case triggerPayment (post (nat retry)) of
              None \<Rightarrow>
                (True, wait @ call @ [Send (success_line iteration correlationID orderResp)])
            | Some err \<Rightarrow>
                (if Contains err ''timeout'' then
                   (case retry_loop iteration correlationID orderResp post (retry + 1) of
                      (success, evs) \<Rightarrow>
                        (success,
                         wait @ call
                           @ (if retry = 2
                              then [Send (timeout_line iteration correlationID orderResp)]
                              else [])
                           @ evs))
                 else
                   (False,
                    wait @ call @ [Send (failed_payment_line iteration correlationID err)])))
      else (False, []))"
  by pat_completeness auto
termination
  by (relation "measure (\<lambda>(iteration, correlationID, orderResp, post, retry). nat (3 - retry))")
     auto

declare retry_loop.simps [simp del]

definition runSimulationIteration :: "int \<Rightarrow> iteration_env \<Rightarrow> harness_event list" where
  "runSimulationIteration iteration e =
     (let correlationID = i_generated_id e
      in case i_create e of
           Inl err \<Rightarrow> [Send (create_failed_line iteration correlationID err)]
         | Inr orderResp \<Rightarrow>
             (case retry_loop iteration correlationID orderResp (i_post e) 0 of
                (success, evs) \<Rightarrow>
                  [Sleep_ms 100] @ evs
                    @ (if \<not> success
                       then [Send (failed_line iteration correlationID orderResp)]
                       else [])))"

text \<open>The lines an iteration sends, and the number of its calls of \<^verbatim>\<open>triggerPayment\<close>.\<close>

fun results_of :: "harness_event list \<Rightarrow> string list" where
  "results_of [] = []"
| "results_of (Send line # evs) = line # results_of evs"
| "results_of (_ # evs) = results_of evs"

fun trigger_calls :: "harness_event list \<Rightarrow> nat" where
  "trigger_calls [] = 0"
| "trigger_calls (Trigger orderID amount # evs) = Suc (trigger_calls evs)"
| "trigger_calls (_ # evs) = trigger_calls evs"

text \<open>How \<^verbatim>\<open>runSimulator\<close> counts a line it receives.\<close>

datatype verdict = SUCCESS | TIMEOUT | OTHER

definition classify :: "string \<Rightarrow> verdict" where
  "classify result =
     (if Contains result ''SUCCESS'' then SUCCESS
      else if Contains result ''TIMEOUT'' then TIMEOUT
      else OTHER)"

section \<open>Auxiliary notions for the Order Service runs\<close>

text \<open>A waiting task for an order means that the order has an attempt row.\<close>

definition waiting_inv :: "string \<Rightarrow> sys \<Rightarrow> bool" where
  "waiting_inv o1 s =
     (o1 \<in> task_order ` set (pending s) \<longrightarrow> 1 \<le> count_attempts (sys_db s) o1)"

text \<open>The request a task holds after its read names the task's own order.\<close>

fun counted_ok :: "task \<Rightarrow> bool" where
  "counted_ok (Started orderID correlationID) = True"
| "counted_ok (Counted orderID fulfillmentReq attemptNumber) =
     (EFR_OrderID fulfillmentReq = orderID)"

definition deliveries :: "string \<Rightarrow> action list \<Rightarrow> nat" where
  "deliveries o1 acts = length (filter (delivery_for o1) acts)"

text \<open>
  For one order: the requests sent out for it, the tasks started for it and still
  waiting, and the deliveries for which the handler started a task.
\<close>

definition calls_for :: "string \<Rightarrow> sys \<Rightarrow> nat" where
  "calls_for o1 s = length (filter (\<lambda>r. EFR_OrderID r = o1) (called s))"

definition waiting_for :: "string \<Rightarrow> sys \<Rightarrow> nat" where
  "waiting_for o1 s = length (filter (\<lambda>t. task_order t = o1) (pending s))"

definition started_for :: "string \<Rightarrow> sys \<Rightarrow> nat" where
  "started_for o1 s = length (filter (\<lambda>b. b) (dispatched o1 s))"

subsection \<open>Sample inputs\<close>

definition sample_order :: Order where
  "sample_order = \<lparr> Order_ID = ''o1'', Order_Amount = 4000, Order_AdminFee = 100,
       Order_Type = ''phone_credit'', Order_Operator = ''indosat'',
       Order_DestinationPhone = ''0815-000-0079'', Order_Total = 4100,
       Order_Status = ''pending'', Order_CreatedAt = 1700000001000000000 \<rparr>"

definition other_order :: Order where
  "other_order = \<lparr> Order_ID = ''o2'', Order_Amount = 9000, Order_AdminFee = 300,
       Order_Type = ''phone_credit'', Order_Operator = ''three'',
       Order_DestinationPhone = ''0896-000-0012'', Order_Total = 9300,
       Order_Status = ''pending'', Order_CreatedAt = 1700000002000000000 \<rparr>"

definition sample_db :: database where
  "sample_db = empty_db\<lparr>internal_orders := [sample_order, other_order]\<rparr>"

definition sample_msg :: PaymentPaidMessage where
  "sample_msg = \<lparr> PPM_OrderID = ''o1'', PPM_PaidAmount = 4100,
       PPM_PaidAt = 1700000000200000000, PPM_CorrelationID = ''AB12CD'' \<rparr>"

definition handler_ok :: handler_env where
  "handler_ok = \<lparr> h_generated_id = ''ZZ99ZZ'', h_update_ok = True, h_insert_ok = True,
       h_count_ok = True, h_db_now = 1700000001000000000 \<rparr>"

definition dispatch_ok :: dispatch_env where
  "dispatch_ok = \<lparr> d_select_ok = True, d_count_ok = True, d_insert_ok = True,
       d_db_now = 1700000002000000000, d_post = PostResp 200, d_update_ok = True \<rparr>"

text \<open>Three deliveries for the sample order; the first task runs between them.\<close>

definition three_deliveries :: "action list" where
  "three_deliveries =
     [Deliver (Some sample_msg) handler_ok, RunTask 0 dispatch_ok,
      Deliver (Some sample_msg) handler_ok, Deliver (Some sample_msg) handler_ok]"

text \<open>
  Two deliveries; the count query of the second fails. Then the two tasks run, one after
  the other, each in its two parts.
\<close>

definition count_query_fails :: "action list" where
  "count_query_fails =
     [Deliver (Some sample_msg) handler_ok,
      Deliver (Some sample_msg) (handler_ok\<lparr>h_count_ok := False\<rparr>),
      RunTask 0 dispatch_ok, RunTask 0 dispatch_ok,
      RunTask 0 dispatch_ok, RunTask 0 dispatch_ok]"

text \<open>
  Two deliveries; then both tasks count before either of them inserts
  (\<open>racing_tasks\<close>), or the first task finishes before the second counts (\<open>tasks_in_turn\<close>).
\<close>

definition racing_tasks :: "action list" where
  "racing_tasks =
     [Deliver (Some sample_msg) handler_ok, Deliver (Some sample_msg) handler_ok,
      RunTask 0 dispatch_ok, RunTask 1 dispatch_ok,
      RunTask 0 dispatch_ok, RunTask 0 dispatch_ok]"

definition tasks_in_turn :: "action list" where
  "tasks_in_turn =
     [Deliver (Some sample_msg) handler_ok, Deliver (Some sample_msg) handler_ok,
      RunTask 0 dispatch_ok, RunTask 0 dispatch_ok,
      RunTask 0 dispatch_ok, RunTask 0 dispatch_ok]"

text \<open>One delivery whose status update fails.\<close>

definition update_fails :: "action list" where
  "update_fails = [Deliver (Some sample_msg) (handler_ok\<lparr>h_update_ok := False\<rparr>)]"

text \<open>The store after one delivery for the sample order.\<close>

definition after_first_delivery :: database where
  "after_first_delivery = fst (handlePaymentPaid True sample_db (Some sample_msg) handler_ok)"

subsection \<open>What an update of \<^verbatim>\<open>internal_orders\<close> may change\<close>

definition same_but_status :: "Order \<Rightarrow> Order \<Rightarrow> bool" where
  "same_but_status a b =
     (Order_ID b = Order_ID a \<and> Order_Amount b = Order_Amount a
      \<and> Order_AdminFee b = Order_AdminFee a \<and> Order_Type b = Order_Type a
      \<and> Order_Operator b = Order_Operator a
      \<and> Order_DestinationPhone b = Order_DestinationPhone a
      \<and> Order_Total b = Order_Total a \<and> Order_CreatedAt b = Order_CreatedAt a)"

text \<open>The row before and after an update aimed at \<open>orderID\<close>.\<close>

definition frame :: "string \<Rightarrow> Order \<Rightarrow> Order \<Rightarrow> bool" where
  "frame orderID a b = (same_but_status a b \<and> (Order_ID a \<noteq> orderID \<longrightarrow> b = a))"

subsection \<open>Sample inputs for order creation and for the harness\<close>

definition sample_order_env :: order_env where
  "sample_order_env = \<lparr> now_operator = 1700000000000000001, now_amount = 1700000000000000004,
       now_suffix = 1700000000000000007, now_created = 1700000001000000000, uuid7 = ''o1'' \<rparr>"

definition sample_created :: CreateOrderResponse where
  "sample_created = \<lparr> COR_ID = ''o1'', COR_Status = ''pending'', COR_Amount = 4000,
       COR_AdminFee = 100, COR_Total = 4100, COR_Operator = ''indosat'',
       COR_DestinationPhone = ''0815-000-0079'' \<rparr>"

text \<open>An iteration whose every call of the Payment Service ends in a timeout error.\<close>

definition always_timeout :: iteration_env where
  "always_timeout = \<lparr> i_generated_id = ''AB12CD'', i_create = Inr sample_created,
       i_post = (\<lambda>n. PostErr ''dial tcp 127.0.0.1:8001: i/o timeout'') \<rparr>"

text \<open>An iteration whose call of the Payment Service is answered with status 500.\<close>

definition payment_rejected :: iteration_env where
  "payment_rejected = \<lparr> i_generated_id = ''AB12CD'', i_create = Inr sample_created,
       i_post = (\<lambda>n. PostResp 500) \<rparr>"

subsection \<open>Payment Service: which calls store a record, and sample inputs\<close>

text \<open>Does this call reach the store statement for the order, and does the statement go through?\<close>

definition stores :: "string \<Rightarrow> PaymentRequest http_request \<times> payment_env \<Rightarrow> bool" where
  "stores orderID c =
     (case c of (r, e) \<Rightarrow>
        Method r = ''POST'' \<and> map_option PR_OrderID (Body r) = Some orderID \<and> p_store_ok e)"

definition sample_payment :: PaymentRequest where
  "sample_payment = \<lparr> PR_OrderID = ''o1'', PR_PaidAmount = 4100, PR_CorrelationID = [] \<rparr>"

text \<open>Three publishes, the second of which fails; the store statement goes through.\<close>

definition payment_ok :: payment_env where
  "payment_ok = \<lparr> p_generated_id = ''QW34ER'', p_chance = 95, p_paidAt = 1700000000200000000,
       p_publish_ok = (\<lambda>i. i \<noteq> 1), p_store_ok = True \<rparr>"

text \<open>Two publishes, both failing, and a failing store statement.\<close>

definition payment_all_fail :: payment_env where
  "payment_all_fail = \<lparr> p_generated_id = ''QW34ER'', p_chance = 80,
       p_paidAt = 1700000000200000000, p_publish_ok = (\<lambda>i. False), p_store_ok = False \<rparr>"

text \<open>Three triggers for the sample order; the store statement of the first fails.\<close>

definition three_triggers :: "(PaymentRequest http_request \<times> payment_env) list" where
  "three_triggers =
     [(post_request sample_payment, payment_all_fail),
      (post_request sample_payment, payment_ok),
      (post_request sample_payment, payment_ok)]"

definition after_one_trigger :: database where
  "after_one_trigger = trigger_all 200 empty_db [(post_request sample_payment, payment_ok)]"

subsection \<open>Sample inputs for the External Fulfillment Service\<close>

definition sample_request :: ExternalFulfillmentRequest where
  "sample_request = \<lparr> EFR_OrderID = ''o1'', EFR_DestinationPhone = ''0815-000-0079'',
       EFR_Amount = 4000, EFR_CorrelationID = ''AB12CD'' \<rparr>"

definition other_request :: ExternalFulfillmentRequest where
  "other_request = \<lparr> EFR_OrderID = ''o2'', EFR_DestinationPhone = ''0896-000-0012'',
       EFR_Amount = 9000, EFR_CorrelationID = [] \<rparr>"

text \<open>
  A call that draws 50 (a success); the clock is read at 500 ms, 501 ms and 503 ms past
  1700000000 s. The process runs in the zone of Jakarta.
\<close>

definition first_call :: ext_env where
  "first_call = \<lparr> x_generated_id = ''GH56JK'', x_lookup_ok = True, x_chance = 50,
       x_now_data = 1700000000500000000, x_now_stored = 1700000000501000000,
       x_now_resp = 1700000000503000000, x_insert_ok = True, x_zone = 25200 \<rparr>"

text \<open>A later call; it would draw 5 (an error) and read the clock two seconds later.\<close>

definition later_call :: ext_env where
  "later_call = \<lparr> x_generated_id = ''LM78NP'', x_lookup_ok = True, x_chance = 5,
       x_now_data = 1700000002500000000, x_now_stored = 1700000002501000000,
       x_now_resp = 1700000002503000000, x_insert_ok = True, x_zone = 25200 \<rparr>"

definition after_first_call :: database where
  "after_first_call = fst (processOrder True empty_db (post_request sample_request) first_call)"

definition after_other_call :: database where
  "after_other_call = fst (processOrder True empty_db (post_request other_request) first_call)"

definition later_calls :: "ext_env list" where
  "later_calls = [later_call, first_call, later_call]"

text \<open>
  The answer of the first call: the wall clock of Jakarta at 1700000000.503 s, offset 420
  minutes. The answer of a later call: the wall clock of Jakarta at 1700000001.000 s,
  the whole second the column kept of 1700000000.501 s.
\<close>

definition first_response :: ExternalFulfillmentResponse where
  "first_response = \<lparr> Resp_Status = ''success'', Resp_Error = [],
       Resp_Data = Some \<lparr> SD_OrderID = ''o1'', SD_VendorOrderID = 1,
                          SD_ProcessedAt = (1700025200503, 420) \<rparr> \<rparr>"

definition later_response :: ExternalFulfillmentResponse where
  "later_response = \<lparr> Resp_Status = ''success'', Resp_Error = [],
       Resp_Data = Some \<lparr> SD_OrderID = ''o1'', SD_VendorOrderID = 1,
                          SD_ProcessedAt = (1700025201000, 420) \<rparr> \<rparr>"

definition stored_row :: ExtOrder where
  "stored_row = \<lparr> Ext_ID = 1, Ext_OrderID = ''o1'', Ext_DestinationPhone = ''0815-000-0079'',
       Ext_Amount = 4000, Ext_Status = ''success'', Ext_Error = [],
       Ext_ProcessedAt = 1700000001000000000 \<rparr>"

subsection \<open>Sample stores for racing dispatch tasks\<close>

text \<open>The store after two deliveries for the sample order with the toggle OFF.\<close>

definition after_two_deliveries :: database where
  "after_two_deliveries =
     sys_db (run False (init_sys sample_db)
       [Deliver (Some sample_msg) handler_ok, Deliver (Some sample_msg) handler_ok])"

text \<open>
  The store after one of the two tasks, having counted on \<open>after_two_deliveries\<close>, has
  inserted its row.
\<close>

definition after_other_insert :: database where
  "after_other_insert =
     fst (processFulfillment_insert after_two_deliveries ''o1'' sample_request 3 dispatch_ok)"

section \<open>Order Service: counting attempts and dispatch decisions\<close>

lemma count_attempts_update [simp]:
  "count_attempts (update_order_status db x st) o1 = count_attempts db o1"
  by (simp add: count_attempts_def update_order_status_def)

lemma count_attempts_insert [simp]:
  "count_attempts (insert_attempt db x n pl t) o1 =
     count_attempts db o1 + (if x = o1 then 1 else 0)"
  by (simp add: count_attempts_def insert_attempt_def)

lemma count_attempts_nonneg: "0 \<le> count_attempts db o1"
  by (simp add: count_attempts_def)

lemma select_order_id: "select_order db x = Some order \<Longrightarrow> Order_ID order = x"
  by (auto simp: select_order_def find_Some_iff)

lemma handle_count:
  "count_attempts (fst (handlePaymentPaid idem db msg e)) o1 =
     count_attempts db o1 +
       (case msg of None \<Rightarrow> 0
        | Some m \<Rightarrow> if h_update_ok e \<and> h_insert_ok e \<and> PPM_OrderID m = o1 then 1 else 0)"
  by (simp add: handlePaymentPaid_def Let_def split: option.splits)

lemma handle_started_on:
  assumes "h_update_ok e" "h_insert_ok e" "h_count_ok e"
  shows "snd (handlePaymentPaid True db (Some m) e) \<noteq> None \<longleftrightarrow>
           count_attempts db (PPM_OrderID m) = 0"
  using assms count_attempts_nonneg [of db "PPM_OrderID m"]
  by (auto simp add: handlePaymentPaid_def Let_def)

lemma handle_started_off:
  "h_update_ok e \<Longrightarrow> snd (handlePaymentPaid False db (Some m) e) \<noteq> None"
  by (simp add: handlePaymentPaid_def Let_def)

lemma handle_started_id:
  "snd (handlePaymentPaid idem db msg e) = Some t \<Longrightarrow> \<exists>m. msg = Some m \<and> fst t = PPM_OrderID m"
  by (auto simp: handlePaymentPaid_def Let_def split: option.splits if_splits)

lemma count_request_id:
  "processFulfillment_count db x cid e = Some (r, n) \<Longrightarrow> EFR_OrderID r = x"
  by (auto simp: processFulfillment_count_def Let_def select_order_id split: option.splits if_splits)

lemma insert_count:
  "count_attempts (fst (processFulfillment_insert db x r n e)) o1 =
     count_attempts db o1 + (if d_insert_ok e \<and> x = o1 then 1 else 0)"
  by (auto simp add: processFulfillment_insert_def Let_def split: post_result.splits)

lemma insert_sent: "snd (processFulfillment_insert db x r n e) = Some r"
  by (simp add: processFulfillment_insert_def Let_def split: post_result.splits)

lemma delivery_forD:
  "delivery_for o1 a \<Longrightarrow> \<exists>m e. a = Deliver (Some m) e \<and> PPM_OrderID m = o1"
  by (cases "(o1, a)" rule: delivery_for.cases) auto

lemma set_remove_nth: "set (take i xs @ drop (Suc i) xs) \<subseteq> set xs"
  using set_take_subset [of i xs] set_drop_subset [of "Suc i" xs] by auto

text \<open>What a part of a task changes.\<close>

lemma run_task_decisions: "decisions (step idem s (RunTask i e)) = decisions s"
  by (auto split: task.splits option.splits prod.splits)

lemma run_task_orders:
  "task_order ` set (pending (step idem s (RunTask i e))) \<subseteq> task_order ` set (pending s)"
proof (cases "i < length (pending s)")
  case False
  then show ?thesis by simp
next
  case True
  have rm: "task_order ` set (take i (pending s) @ drop (Suc i) (pending s))
      \<subseteq> task_order ` set (pending s)"
    using set_remove_nth [of i "pending s"] by blast
  show ?thesis
  proof (cases "pending s ! i")
    case (Started x cid)
    show ?thesis
    proof (cases "processFulfillment_count (sys_db s) x cid e")
      case None
      with True Started rm show ?thesis by simp
    next
      case (Some rn)
      obtain r n where rn: "rn = (r, n)" by (cases rn)
      have "x \<in> task_order ` set (pending s)"
        using True Started nth_mem [of i "pending s"] by force
      moreover have "set ((pending s)[i := Counted x r n]) \<subseteq> insert (Counted x r n) (set (pending s))"
        by (rule set_update_subset_insert)
      ultimately have "task_order ` set ((pending s)[i := Counted x r n])
          \<subseteq> task_order ` set (pending s)"
        by auto
      with True Started Some rn show ?thesis by simp
    qed
  next
    case (Counted x r n)
    with True rm show ?thesis by (simp split: prod.splits)
  qed
qed

lemma run_task_count:
  "count_attempts (sys_db s) o1 \<le> count_attempts (sys_db (step idem s (RunTask i e))) o1
   \<and> (o1 \<notin> task_order ` set (pending s) \<longrightarrow>
        count_attempts (sys_db (step idem s (RunTask i e))) o1 = count_attempts (sys_db s) o1)"
proof (cases "i < length (pending s)")
  case False
  then show ?thesis by simp
next
  case True
  show ?thesis
  proof (cases "pending s ! i")
    case (Started x cid)
    with True show ?thesis by (simp split: option.splits prod.splits)
  next
    case (Counted x r n)
    obtain db' sent where h: "processFulfillment_insert (sys_db s) x r n e = (db', sent)"
      by (cases "processFulfillment_insert (sys_db s) x r n e")
    have c: "count_attempts db' o1 =
        count_attempts (sys_db s) o1 + (if d_insert_ok e \<and> x = o1 then 1 else 0)"
      using insert_count [of "sys_db s" x r n e o1] h by simp
    have "x \<in> task_order ` set (pending s)"
      using True Counted nth_mem [of i "pending s"] by force
    with True Counted h c show ?thesis by auto
  qed
qed

lemma step_deliver_for:
  assumes "delivery_for o1 a" "action_env_ok a"
  shows "dispatched o1 (step True s a) = dispatched o1 s @ [count_attempts (sys_db s) o1 = 0]"
    and "count_attempts (sys_db (step True s a)) o1 = count_attempts (sys_db s) o1 + 1"
proof -
  from delivery_forD [OF assms(1)] assms(2)
  obtain m e where a: "a = Deliver (Some m) e" and m: "PPM_OrderID m = o1"
    and e: "h_update_ok e" "h_insert_ok e" "h_count_ok e"
    by auto
  obtain db' st where h: "handlePaymentPaid True (sys_db s) (Some m) e = (db', st)"
    by (cases "handlePaymentPaid True (sys_db s) (Some m) e")
  from handle_started_on [OF e, of "sys_db s" m] h m
  have st: "(st \<noteq> None) = (count_attempts (sys_db s) o1 = 0)" by simp
  from handle_count [of True "sys_db s" "Some m" e o1] h m e
  have c: "count_attempts db' o1 = count_attempts (sys_db s) o1 + 1" by simp
  show "dispatched o1 (step True s a) = dispatched o1 s @ [count_attempts (sys_db s) o1 = 0]"
    using a h m st by (simp add: dispatched_def)
  show "count_attempts (sys_db (step True s a)) o1 = count_attempts (sys_db s) o1 + 1"
    using a h c by simp
qed

lemma step_other:
  assumes "\<not> delivery_for o1 a" "waiting_inv o1 s"
  shows "dispatched o1 (step idem s a) = dispatched o1 s"
    and "(count_attempts (sys_db (step idem s a)) o1 = 0) = (count_attempts (sys_db s) o1 = 0)"
proof -
  show "dispatched o1 (step idem s a) = dispatched o1 s"
  proof (cases a)
    case (Deliver msg e)
    with assms(1) show ?thesis
      by (cases msg) (auto simp: dispatched_def split: prod.splits)
  next
    case (RunTask i e)
    then show ?thesis by (simp add: dispatched_def run_task_decisions del: step.simps)
  qed
  show "(count_attempts (sys_db (step idem s a)) o1 = 0) = (count_attempts (sys_db s) o1 = 0)"
  proof (cases a)
    case (Deliver msg e)
    obtain db' st where h: "handlePaymentPaid idem (sys_db s) msg e = (db', st)"
      by (cases "handlePaymentPaid idem (sys_db s) msg e")
    from handle_count [of idem "sys_db s" msg e o1] h assms(1) Deliver
    have "count_attempts db' o1 = count_attempts (sys_db s) o1"
      by (cases msg) auto
    with Deliver h show ?thesis by simp
  next
    case (RunTask i e)
    show ?thesis
    proof (cases "o1 \<in> task_order ` set (pending s)")
      case False
      with run_task_count [of s o1 idem i e] RunTask show ?thesis by simp
    next
      case True
      with assms(2) have "1 \<le> count_attempts (sys_db s) o1" by (simp add: waiting_inv_def)
      with run_task_count [of s o1 idem i e] RunTask show ?thesis by simp
    qed
  qed
qed

lemma step_waiting_inv:
  assumes "waiting_inv o1 s" "delivery_for o1 a \<longrightarrow> action_env_ok a"
  shows "waiting_inv o1 (step True s a)"
proof (cases "delivery_for o1 a")
  case True
  with assms(2) step_deliver_for(2) [of o1 a s]
  have "count_attempts (sys_db (step True s a)) o1 = count_attempts (sys_db s) o1 + 1" by simp
  moreover have "0 \<le> count_attempts (sys_db s) o1" by (rule count_attempts_nonneg)
  ultimately show ?thesis by (simp add: waiting_inv_def)
next
  case False
  show ?thesis
  proof (cases "o1 \<in> task_order ` set (pending s)")
    case True
    with assms(1) have "1 \<le> count_attempts (sys_db s) o1" by (simp add: waiting_inv_def)
    with step_other(2) [OF False assms(1), of True] have "count_attempts (sys_db (step True s a)) o1 \<noteq> 0"
      by simp
    moreover have "0 \<le> count_attempts (sys_db (step True s a)) o1"
      by (rule count_attempts_nonneg)
    ultimately show ?thesis by (simp add: waiting_inv_def)
  next
    case nw: False
    have "o1 \<notin> task_order ` set (pending (step True s a))"
    proof (cases a)
      case (Deliver msg e)
      obtain db' st where h: "handlePaymentPaid True (sys_db s) msg e = (db', st)"
        by (cases "handlePaymentPaid True (sys_db s) msg e")
      show ?thesis
      proof (cases st)
        case None
        with Deliver h nw show ?thesis by simp
      next
        case (Some t)
        with handle_started_id [of True "sys_db s" msg e t] h
        obtain m where "msg = Some m" "fst t = PPM_OrderID m" by auto
        with False Deliver have "fst t \<noteq> o1" by simp
        with Deliver h Some nw show ?thesis by (cases t) simp
      qed
    next
      case (RunTask i e)
      with nw run_task_orders [of True s i e] show ?thesis by blast
    qed
    then show ?thesis by (simp add: waiting_inv_def)
  qed
qed

lemma run_on:
  assumes "waiting_inv o1 s" "\<forall>a\<in>set acts. delivery_for o1 a \<longrightarrow> action_env_ok a"
  shows "dispatched o1 (run True s acts) = dispatched o1 s @
           (case deliveries o1 acts of 0 \<Rightarrow> []
            | Suc k \<Rightarrow> (count_attempts (sys_db s) o1 = 0) # replicate k False)"
  using assms
proof (induction acts arbitrary: s)
  case Nil
  then show ?case by (simp add: run_def deliveries_def)
next
  case (Cons a acts)
  have inv': "waiting_inv o1 (step True s a)"
    using step_waiting_inv [OF Cons.prems(1)] Cons.prems(2) by simp
  have ih: "dispatched o1 (run True (step True s a) acts) = dispatched o1 (step True s a) @
           (case deliveries o1 acts of 0 \<Rightarrow> []
            | Suc k \<Rightarrow> (count_attempts (sys_db (step True s a)) o1 = 0) # replicate k False)"
    using Cons.IH [OF inv'] Cons.prems(2) by simp
  have r: "run True s (a # acts) = run True (step True s a) acts" by (simp add: run_def)
  show ?case
  proof (cases "delivery_for o1 a")
    case True
    with Cons.prems(2) have ok: "action_env_ok a" by simp
    have c: "count_attempts (sys_db (step True s a)) o1 \<noteq> 0"
      using step_deliver_for(2) [OF True ok, of s] count_attempts_nonneg [of "sys_db s" o1] by simp
    have "(case deliveries o1 acts of 0 \<Rightarrow> []
            | Suc k \<Rightarrow> (count_attempts (sys_db (step True s a)) o1 = 0) # replicate k False)
          = replicate (deliveries o1 acts) False"
      using c by (cases "deliveries o1 acts") simp_all
    with ih r step_deliver_for(1) [OF True ok, of s] True show ?thesis
      by (simp add: deliveries_def)
  next
    case False
    with ih r step_other [OF False Cons.prems(1), of True] show ?thesis
      by (simp add: deliveries_def split: nat.splits)
  qed
qed

lemma run_off:
  assumes "\<forall>a\<in>set acts. delivery_for o1 a \<longrightarrow> action_update_ok a"
  shows "dispatched o1 (run False s acts) = dispatched o1 s @ replicate (deliveries o1 acts) True"
  using assms
proof (induction acts arbitrary: s)
  case Nil
  then show ?case by (simp add: run_def deliveries_def)
next
  case (Cons a acts)
  have r: "run False s (a # acts) = run False (step False s a) acts" by (simp add: run_def)
  have ih: "dispatched o1 (run False (step False s a) acts) =
      dispatched o1 (step False s a) @ replicate (deliveries o1 acts) True"
    using Cons by simp
  show ?case
  proof (cases "delivery_for o1 a")
    case True
    with Cons.prems have ok: "action_update_ok a" by simp
    from delivery_forD [OF True] ok
    obtain m e where a: "a = Deliver (Some m) e" "PPM_OrderID m = o1" "h_update_ok e"
      by auto
    have "dispatched o1 (step False s a) = dispatched o1 s @ [True]"
      using a handle_started_off [of e "sys_db s" m]
      by (auto simp: dispatched_def split: prod.splits)
    with ih r True show ?thesis
      by (simp add: deliveries_def replicate_app_Cons_same)
  next
    case False
    have "dispatched o1 (step False s a) = dispatched o1 s"
    proof (cases a)
      case (Deliver msg e)
      with False show ?thesis
        by (cases msg) (auto simp: dispatched_def split: prod.splits)
    next
      case (RunTask i e)
      then show ?thesis by (simp add: dispatched_def run_task_decisions del: step.simps)
    qed
    with ih r False show ?thesis by (simp add: deliveries_def)
  qed
qed

lemma length_filter_remove_nth:
  "i < length xs \<Longrightarrow>
     length (filter P (take i xs @ drop (Suc i) xs)) + (if P (xs ! i) then 1 else 0)
       = length (filter P xs)"
proof -
  assume "i < length xs"
  then have "xs = take i xs @ xs ! i # drop (Suc i) xs" by (rule id_take_nth_drop)
  then have "length (filter P xs) = length (filter P (take i xs @ xs ! i # drop (Suc i) xs))"
    by simp
  then show ?thesis by simp
qed

lemma length_filter_update:
  assumes "i < length xs" "P y = P (xs ! i)"
  shows "length (filter P (xs[i := y])) = length (filter P xs)"
proof -
  have "xs[i := y] = take i xs @ y # drop (Suc i) xs"
    using assms(1) by (rule upd_conv_take_nth_drop)
  moreover have "xs = take i xs @ xs ! i # drop (Suc i) xs"
    using assms(1) by (rule id_take_nth_drop)
  ultimately have "length (filter P (xs[i := y])) = length (filter P (take i xs @ y # drop (Suc i) xs))"
    and "length (filter P xs) = length (filter P (take i xs @ xs ! i # drop (Suc i) xs))"
    by simp_all
  with assms(2) show ?thesis by simp
qed

lemma step_counted_ok:
  assumes "list_all counted_ok (pending s)"
  shows "list_all counted_ok (pending (step idem s a))"
proof (cases a)
  case (Deliver msg e)
  with assms show ?thesis by (auto split: prod.splits option.splits)
next
  case (RunTask i e)
  show ?thesis
  proof (cases "i < length (pending s)")
    case False
    with RunTask assms show ?thesis by simp
  next
    case True
    have rm: "list_all counted_ok (take i (pending s) @ drop (Suc i) (pending s))"
      using assms set_remove_nth [of i "pending s"] by (auto simp: list_all_iff)
    show ?thesis
    proof (cases "pending s ! i")
      case (Started x cid)
      show ?thesis
      proof (cases "processFulfillment_count (sys_db s) x cid e")
        case None
        with RunTask True Started rm show ?thesis by simp
      next
        case (Some rn)
        obtain r n where rn: "rn = (r, n)" by (cases rn)
        with Some count_request_id [of "sys_db s" x cid e r n] have "counted_ok (Counted x r n)"
          by simp
        with assms set_update_subset_insert [of "pending s" i "Counted x r n"]
        have "list_all counted_ok ((pending s)[i := Counted x r n])"
          by (auto simp: list_all_iff)
        with RunTask True Started Some rn show ?thesis by simp
      qed
    next
      case (Counted x r n)
      with RunTask True rm show ?thesis by (simp split: prod.splits)
    qed
  qed
qed

lemma step_calls:
  assumes "calls_for o1 s + waiting_for o1 s \<le> started_for o1 s"
    and "list_all counted_ok (pending s)"
  shows "calls_for o1 (step idem s a) + waiting_for o1 (step idem s a)
           \<le> started_for o1 (step idem s a)"
proof (cases a)
  case (Deliver msg e)
  obtain db' st where h: "handlePaymentPaid idem (sys_db s) msg e = (db', st)"
    by (cases "handlePaymentPaid idem (sys_db s) msg e")
  show ?thesis
  proof (cases st)
    case None
    with Deliver h assms(1) show ?thesis
      by (cases msg) (simp_all add: calls_for_def waiting_for_def started_for_def dispatched_def)
  next
    case (Some t)
    with handle_started_id [of idem "sys_db s" msg e t] h
    obtain m where "msg = Some m" "fst t = PPM_OrderID m" by auto
    with Deliver h Some assms(1) show ?thesis
      by (cases t) (simp add: calls_for_def waiting_for_def started_for_def dispatched_def)
  qed
next
  case (RunTask i e)
  have d: "started_for o1 (step idem s a) = started_for o1 s"
    using RunTask by (simp add: started_for_def dispatched_def run_task_decisions del: step.simps)
  show ?thesis
  proof (cases "i < length (pending s)")
    case False
    with RunTask assms(1) show ?thesis by simp
  next
    case True
    show ?thesis
    proof (cases "pending s ! i")
      case (Started x cid)
      show ?thesis
      proof (cases "processFulfillment_count (sys_db s) x cid e")
        case None
        have "waiting_for o1 (step idem s a) \<le> waiting_for o1 s"
          using RunTask True Started None
            length_filter_remove_nth [OF True, of "\<lambda>t. task_order t = o1"]
          by (simp add: waiting_for_def)
        moreover have "calls_for o1 (step idem s a) = calls_for o1 s"
          using RunTask True Started None by (simp add: calls_for_def)
        ultimately show ?thesis using d assms(1) by simp
      next
        case (Some rn)
        obtain r n where rn: "rn = (r, n)" by (cases rn)
        have "waiting_for o1 (step idem s a) = waiting_for o1 s"
          using RunTask True Started Some rn
            length_filter_update [OF True, of "\<lambda>t. task_order t = o1" "Counted x r n"]
          by (simp add: waiting_for_def)
        moreover have "calls_for o1 (step idem s a) = calls_for o1 s"
          using RunTask True Started Some rn by (simp add: calls_for_def)
        ultimately show ?thesis using d assms(1) by simp
      qed
    next
      case (Counted x r n)
      obtain db' sent where h: "processFulfillment_insert (sys_db s) x r n e = (db', sent)"
        by (cases "processFulfillment_insert (sys_db s) x r n e")
      with insert_sent [of "sys_db s" x r n e] have sent: "sent = Some r" by simp
      have "Counted x r n \<in> set (pending s)"
        using True Counted nth_mem [of i "pending s"] by simp
      with assms(2) have id: "EFR_OrderID r = x" by (auto simp: list_all_iff)
      have w: "waiting_for o1 (step idem s a) + (if x = o1 then 1 else 0) = waiting_for o1 s"
        using RunTask True Counted h length_filter_remove_nth [OF True, of "\<lambda>t. task_order t = o1"]
        by (simp add: waiting_for_def)
      have c: "calls_for o1 (step idem s a) = calls_for o1 s + (if x = o1 then 1 else 0)"
        using RunTask True Counted h sent id by (simp add: calls_for_def)
      from w c d assms(1) show ?thesis by (simp split: if_splits)
    qed
  qed
qed

lemma run_calls:
  assumes "calls_for o1 s + waiting_for o1 s \<le> started_for o1 s"
    and "list_all counted_ok (pending s)"
  shows "calls_for o1 (run idem s acts) + waiting_for o1 (run idem s acts)
           \<le> started_for o1 (run idem s acts)"
  using assms
proof (induction acts arbitrary: s)
  case Nil
  then show ?case by (simp add: run_def)
next
  case (Cons a acts)
  have "run idem s (a # acts) = run idem (step idem s a) acts" by (simp add: run_def)
  with Cons.IH [OF step_calls [OF Cons.prems] step_counted_ok [OF Cons.prems(2)]]
  show ?case by simp
qed

lemma waiting_inv_init: "waiting_inv o1 (init_sys db)"
  by (simp add: waiting_inv_def init_sys_def)

subsection \<open>Updates of the order table\<close>

lemma same_but_status_refl: "same_but_status a a"
  by (simp add: same_but_status_def)

lemma same_but_status_trans:
  "same_but_status a b \<Longrightarrow> same_but_status b c \<Longrightarrow> same_but_status a c"
  by (simp add: same_but_status_def)

lemma frame_set_status: "frame orderID a (set_status orderID st a)"
  by (simp add: frame_def same_but_status_def set_status_def)

lemma frame_refl: "frame orderID a a"
  by (simp add: frame_def same_but_status_def)

lemma frame_same: "frame orderID a b \<Longrightarrow> same_but_status a b"
  by (simp add: frame_def)

lemma orders_update:
  "list_all2 (frame orderID) (internal_orders db)
     (internal_orders (update_order_status db orderID st))"
  by (simp add: update_order_status_def list_all2_map2 list_all2_same frame_set_status)

lemma orders_refl: "list_all2 (frame orderID) (internal_orders db) (internal_orders db)"
  by (simp add: list_all2_same frame_refl)

lemma orders_insert_attempt [simp]:
  "internal_orders (insert_attempt db x n pl t) = internal_orders db"
  by (simp add: insert_attempt_def)

lemma handle_orders:
  "internal_orders (fst (handlePaymentPaid idem db msg e)) =
     (case msg of None \<Rightarrow> internal_orders db
      | Some m \<Rightarrow> if h_update_ok e
                  then internal_orders (update_order_status db (PPM_OrderID m) ''paid'')
                  else internal_orders db)"
  by (simp add: handlePaymentPaid_def Let_def split: option.splits)

lemma insert_orders:
  "internal_orders (fst (processFulfillment_insert db x r n e)) = internal_orders db
   \<or> internal_orders (fst (processFulfillment_insert db x r n e)) =
       internal_orders (update_order_status db x ''fulfilment'')"
  by (auto simp add: processFulfillment_insert_def Let_def update_order_status_def
      split: post_result.splits)

lemma handle_frame:
  "list_all2 (frame (PPM_OrderID m)) (internal_orders db)
     (internal_orders (fst (handlePaymentPaid idem db (Some m) e)))"
  by (simp add: handle_orders orders_update orders_refl)

lemma insert_frame:
  "list_all2 (frame x) (internal_orders db)
     (internal_orders (fst (processFulfillment_insert db x r n e)))"
  using insert_orders [of db x r n e] orders_update [of x db "''fulfilment''"] orders_refl [of x db]
  by auto

lemma process_frame:
  "list_all2 (frame x) (internal_orders db)
     (internal_orders (fst (processFulfillment db x cid e)))"
  by (simp add: processFulfillment_def orders_refl insert_frame split: option.splits)

lemma frame_to_same:
  "list_all2 (frame x) xs ys \<Longrightarrow> list_all2 same_but_status xs ys"
  by (erule list_all2_mono) (rule frame_same)

lemma step_same:
  "list_all2 same_but_status (internal_orders (sys_db s)) (internal_orders (sys_db (step idem s a)))"
proof (cases a)
  case (Deliver msg e)
  show ?thesis
  proof (cases msg)
    case None
    with Deliver show ?thesis
      by (simp add: handlePaymentPaid_def list_all2_same same_but_status_refl)
  next
    case (Some m)
    obtain db' st where h: "handlePaymentPaid idem (sys_db s) (Some m) e = (db', st)"
      by (cases "handlePaymentPaid idem (sys_db s) (Some m) e")
    with Deliver Some frame_to_same [OF handle_frame [of m "sys_db s" idem e]] show ?thesis
      by simp
  qed
next
  case (RunTask i e)
  show ?thesis
  proof (cases "i < length (pending s)")
    case False
    with RunTask show ?thesis by (simp add: list_all2_same same_but_status_refl)
  next
    case True
    show ?thesis
    proof (cases "pending s ! i")
      case (Started x cid)
      with RunTask True show ?thesis
        by (simp add: list_all2_same same_but_status_refl split: option.splits prod.splits)
    next
      case (Counted x r n)
      obtain db' sent where h: "processFulfillment_insert (sys_db s) x r n e = (db', sent)"
        by (cases "processFulfillment_insert (sys_db s) x r n e")
      from RunTask True Counted h frame_to_same [OF insert_frame [of x "sys_db s" r n e]]
      show ?thesis by simp
    qed
  qed
qed

lemma run_same:
  "list_all2 same_but_status (internal_orders (sys_db s)) (internal_orders (sys_db (run idem s acts)))"
proof (induction acts arbitrary: s)
  case Nil
  show ?case by (simp add: run_def list_all2_same same_but_status_refl)
next
  case (Cons a acts)
  have "run idem s (a # acts) = run idem (step idem s a) acts" by (simp add: run_def)
  with list_all2_trans [where ?P1.0 = same_but_status and ?P2.0 = same_but_status
      and ?P3.0 = same_but_status, OF _ step_same [of s idem a] Cons.IH [of "step idem s a"]]
  show ?case using same_but_status_trans by auto
qed

lemma attempts_update [simp]:
  "fulfillment_attempts (update_order_status db x st) = fulfillment_attempts db"
  "next_attempt_id (update_order_status db x st) = next_attempt_id db"
  by (simp_all add: update_order_status_def)

section \<open>Order generation: the slices and the clock\<close>

lemma index_operators:
  assumes "index operators i = Some operator"
  shows "operator \<in> {''indosat'', ''xl'', ''three''}"
proof -
  from assms have r: "0 \<le> i" "i < 3" and v: "operator = operators ! nat i"
    by (auto simp: index_def operators_def split: if_splits)
  from r have "i = 0 \<or> i = 1 \<or> i = 2" by arith
  with v show ?thesis by (auto simp: operators_def)
qed

lemma index_amounts:
  assumes "index amounts i = Some amount"
  shows "amount \<in> {1000, 2000, 3000, 4000, 5000, 6000, 7000, 8000, 9000}"
proof -
  from assms have r: "0 \<le> i" "i < 9" and v: "amount = amounts ! nat i"
    by (auto simp: index_def amounts_def split: if_splits)
  from r have "i = 0 \<or> i = 1 \<or> i = 2 \<or> i = 3 \<or> i = 4 \<or> i = 5 \<or> i = 6 \<or> i = 7 \<or> i = 8"
    by arith
  with v show ?thesis by (auto simp: amounts_def)
qed

lemma smod_nonneg: "0 \<le> (k::int) \<Longrightarrow> 0 < l \<Longrightarrow> 0 \<le> k smod l \<and> k smod l < l"
  by (simp add: smod_int_alt_def sgn_if)

text \<open>With clock readings after the epoch no index leaves its slice: an order is returned.\<close>

lemma GenerateRandomOrder_returns:
  assumes "0 \<le> now_operator e" "0 \<le> now_amount e"
  shows "\<exists>order. GenerateRandomOrder e = Some order"
  using smod_nonneg [OF assms(1), of 3] smod_nonneg [OF assms(2), of 9]
  by (simp add: GenerateRandomOrder_def Let_def index_def operators_def amounts_def)

text \<open>What \<^verbatim>\<open>createOrder\<close> stores and answers is the generated order.\<close>

lemma createOrder_stores_generated:
  assumes "createOrder db method e = Some (db', Json resp)"
  shows "\<exists>order. GenerateRandomOrder (c_order_env e) = Some order
           \<and> internal_orders db' = internal_orders db @
                 [order\<lparr>Order_CreatedAt := timestamp_column (Order_CreatedAt order)\<rparr>]
           \<and> COR_ID resp = Order_ID order \<and> COR_Status resp = Order_Status order
           \<and> COR_Amount resp = Order_Amount order \<and> COR_AdminFee resp = Order_AdminFee order
           \<and> COR_Total resp = Order_Total order \<and> COR_Operator resp = Order_Operator order
           \<and> COR_DestinationPhone resp = Order_DestinationPhone order"
  using assms
  by (auto simp: createOrder_def insert_order_def split: if_splits option.splits)

section \<open>Simulation Harness: the retry loop\<close>

lemma triggerPayment_timeout:
  "IsTimeoutError err \<Longrightarrow> triggerPayment (PostErr err) = Some ''timeout''"
  by (simp add: triggerPayment_def)

lemma retry_loop_always_timeout:
  assumes "\<And>n. \<exists>err. post n = PostErr err \<and> IsTimeoutError err"
  shows "retry_loop it cid resp post 0 =
     (False, [Trigger (COR_ID resp) (COR_Total resp),
              Sleep_ms 100, Trigger (COR_ID resp) (COR_Total resp),
              Sleep_ms 100, Trigger (COR_ID resp) (COR_Total resp),
              Send (timeout_line it cid resp)])"
proof -
  have t: "triggerPayment (post n) = Some ''timeout''" for n
    using assms [of n] by (auto simp: triggerPayment_timeout)
  have r3: "retry_loop it cid resp post 3 = (False, [])"
    by (simp add: retry_loop.simps [of _ _ _ _ 3])
  have r2: "retry_loop it cid resp post 2 =
      (False, [Sleep_ms 100, Trigger (COR_ID resp) (COR_Total resp), Send (timeout_line it cid resp)])"
    using r3 by (simp add: retry_loop.simps [of _ _ _ _ 2] t)
  have r1: "retry_loop it cid resp post 1 =
      (False, [Sleep_ms 100, Trigger (COR_ID resp) (COR_Total resp),
               Sleep_ms 100, Trigger (COR_ID resp) (COR_Total resp), Send (timeout_line it cid resp)])"
    using r2 by (simp add: retry_loop.simps [of _ _ _ _ 1] t)
  show ?thesis
    using r1 by (simp add: retry_loop.simps [of _ _ _ _ 0] t)
qed

text \<open>Whatever the outcomes: three calls after three timeouts, never a fourth.\<close>

lemma iteration_always_timeout:
  assumes "i_create e = Inr resp" "\<And>n. \<exists>err. i_post e n = PostErr err \<and> IsTimeoutError err"
  shows "runSimulationIteration it e =
           [Sleep_ms 100, Trigger (COR_ID resp) (COR_Total resp),
            Sleep_ms 100, Trigger (COR_ID resp) (COR_Total resp),
            Sleep_ms 100, Trigger (COR_ID resp) (COR_Total resp),
            Send (timeout_line it (i_generated_id e) resp),
            Send (failed_line it (i_generated_id e) resp)]"
  using assms(1) retry_loop_always_timeout [of "i_post e" it "i_generated_id e" resp] assms(2)
  by (simp add: runSimulationIteration_def Let_def)

lemma results_of_append [simp]: "results_of (xs @ ys) = results_of xs @ results_of ys"
  by (induction xs rule: results_of.induct) simp_all

lemma trigger_calls_append [simp]: "trigger_calls (xs @ ys) = trigger_calls xs + trigger_calls ys"
  by (induction xs rule: trigger_calls.induct) simp_all

lemma retry_loop_exit: "retry_loop it cid resp post 3 = (False, [])"
  by (simp add: retry_loop.simps [of _ _ _ _ 3])

text \<open>The loop sends exactly one line, and calls at most three times.\<close>

lemma retry_loop_sends_once:
  "length (results_of (snd (retry_loop it cid resp post 0))) = 1"
proof -
  have l2: "length (results_of (snd (retry_loop it cid resp post 2))) = 1"
    by (simp add: retry_loop.simps [of _ _ _ _ 2] retry_loop_exit Let_def split: option.splits)
  have l1: "length (results_of (snd (retry_loop it cid resp post 1))) = 1"
    using l2
    by (auto simp add: retry_loop.simps [of _ _ _ _ 1] Let_def split: option.splits prod.splits)
  show ?thesis
    using l1
    by (auto simp add: retry_loop.simps [of _ _ _ _ 0] Let_def split: option.splits prod.splits)
qed

lemma retry_loop_calls_le:
  "trigger_calls (snd (retry_loop it cid resp post 0)) \<le> 3"
proof -
  have l2: "trigger_calls (snd (retry_loop it cid resp post 2)) \<le> 1"
    by (simp add: retry_loop.simps [of _ _ _ _ 2] retry_loop_exit Let_def split: option.splits)
  have l1: "trigger_calls (snd (retry_loop it cid resp post 1)) \<le> 2"
    using l2
    by (auto simp add: retry_loop.simps [of _ _ _ _ 1] Let_def split: option.splits prod.splits)
  show ?thesis
    using l1
    by (auto simp add: retry_loop.simps [of _ _ _ _ 0] Let_def split: option.splits prod.splits)
qed

text \<open>How many lines an iteration sends, and how many calls it makes at most.\<close>

lemma iteration_result_count:
  "length (results_of (runSimulationIteration it e)) =
     (case i_create e of Inl err \<Rightarrow> 1
      | Inr resp \<Rightarrow> if fst (retry_loop it (i_generated_id e) resp (i_post e) 0) then 1 else 2)"
proof (cases "i_create e")
  case (Inl err)
  then show ?thesis by (simp add: runSimulationIteration_def Let_def)
next
  case (Inr resp)
  obtain ok evs where r: "retry_loop it (i_generated_id e) resp (i_post e) 0 = (ok, evs)"
    by (cases "retry_loop it (i_generated_id e) resp (i_post e) 0")
  with retry_loop_sends_once [of it "i_generated_id e" resp "i_post e"]
  have "length (results_of evs) = 1" by simp
  with Inr r show ?thesis by (simp add: runSimulationIteration_def Let_def)
qed

lemma iteration_calls_le: "trigger_calls (runSimulationIteration it e) \<le> 3"
proof (cases "i_create e")
  case (Inl err)
  then show ?thesis by (simp add: runSimulationIteration_def Let_def)
next
  case (Inr resp)
  obtain ok evs where r: "retry_loop it (i_generated_id e) resp (i_post e) 0 = (ok, evs)"
    by (cases "retry_loop it (i_generated_id e) resp (i_post e) 0")
  with retry_loop_calls_le [of it "i_generated_id e" resp "i_post e"]
  have "trigger_calls evs \<le> 3" by simp
  with Inr r show ?thesis by (simp add: runSimulationIteration_def Let_def)
qed

section \<open>Payment Service: the payment table\<close>

lemma DeterminePublishCount_range: "DeterminePublishCount chance \<in> {1, 2, 3}"
  by (simp add: DeterminePublishCount_def)

lemma length_filter_key:
  "distinct (map f xs) \<Longrightarrow> length (filter (\<lambda>x. f x = k) xs) = (if k \<in> f ` set xs then 1 else 0)"
  by (induction xs) auto

lemma upsert_fails: "upsert_payment db x amt t False = None"
  by (simp add: upsert_payment_def)

lemma upsert_ids:
  "upsert_payment db x amt t True = Some db' \<Longrightarrow>
     Pay_OrderID ` set (internal_payments db') = insert x (Pay_OrderID ` set (internal_payments db))"
  by (auto simp: upsert_payment_def split: if_splits)

lemma upsert_distinct:
  "distinct (map Pay_OrderID (internal_payments db)) \<Longrightarrow>
     upsert_payment db x amt t ok = Some db' \<Longrightarrow>
     distinct (map Pay_OrderID (internal_payments db'))"
  by (auto simp: upsert_payment_def split: if_splits)

lemma upsert_conflict:
  "x \<in> Pay_OrderID ` set (internal_payments db) \<Longrightarrow> upsert_payment db x amt t True = Some db"
  by (simp add: upsert_payment_def)

lemma upsert_returns: "\<exists>db'. upsert_payment db x amt t True = Some db'"
  by (simp add: upsert_payment_def)

lemma trigger_payments:
  "internal_payments (fst (triggerPaymentPaid timeoutMs db r e)) =
     (case Body r of
        Some req \<Rightarrow>
          if Method r = ''POST''
          then (case upsert_payment db (PR_OrderID req) (PR_PaidAmount req) (p_paidAt e)
                       (p_store_ok e) of
                  None \<Rightarrow> internal_payments db
                | Some db' \<Rightarrow> internal_payments db')
          else internal_payments db
      | None \<Rightarrow> internal_payments db)"
  by (simp add: triggerPaymentPaid_def Let_def split: option.splits)

lemma trigger_ids:
  "Pay_OrderID ` set (internal_payments (fst (triggerPaymentPaid timeoutMs db r e))) =
     Pay_OrderID ` set (internal_payments db) \<union> {x. stores x (r, e)}"
proof (cases "Method r = ''POST'' \<and> Body r \<noteq> None \<and> p_store_ok e")
  case False
  then show ?thesis
    by (auto simp: trigger_payments stores_def upsert_fails split: option.splits)
next
  case True
  then obtain req where b: "Body r = Some req" by auto
  from upsert_returns [of db "PR_OrderID req" "PR_PaidAmount req" "p_paidAt e"]
  obtain db' where u: "upsert_payment db (PR_OrderID req) (PR_PaidAmount req) (p_paidAt e) True
      = Some db'" by blast
  from True b u upsert_ids [OF u] show ?thesis
    by (auto simp: trigger_payments stores_def)
qed

lemma trigger_distinct:
  "distinct (map Pay_OrderID (internal_payments db)) \<Longrightarrow>
     distinct (map Pay_OrderID (internal_payments (fst (triggerPaymentPaid timeoutMs db r e))))"
  by (auto simp add: trigger_payments dest: upsert_distinct split: option.splits)

lemma trigger_all_ids:
  "Pay_OrderID ` set (internal_payments (trigger_all timeoutMs db calls)) =
     Pay_OrderID ` set (internal_payments db) \<union> {x. \<exists>c\<in>set calls. stores x c}"
proof (induction calls arbitrary: db)
  case Nil
  show ?case by simp
next
  case (Cons c calls)
  obtain r e where c: "c = (r, e)" by (cases c)
  show ?case
    unfolding c trigger_all.simps Cons.IH trigger_ids by auto
qed

lemma trigger_all_distinct:
  "distinct (map Pay_OrderID (internal_payments db)) \<Longrightarrow>
     distinct (map Pay_OrderID (internal_payments (trigger_all timeoutMs db calls)))"
proof (induction calls arbitrary: db)
  case Nil
  then show ?case by simp
next
  case (Cons c calls)
  obtain r e where c: "c = (r, e)" by (cases c)
  from Cons.IH [OF trigger_distinct [OF Cons.prems, of timeoutMs r e]] show ?case
    unfolding c by simp
qed

section \<open>External Fulfillment Service: stored outcomes\<close>

lemma find_append_new:
  "find P xs = None \<Longrightarrow> find P (xs @ [x]) = (if P x then Some x else None)"
  by (induction xs) (auto split: if_splits)

lemma processOrder_stored:
  assumes "lookup_ext db (EFR_OrderID req) = Some row" "x_lookup_ok e"
  shows "processOrder True db (post_request req) e = (db, Json (stored_response row))"
  using assms by (simp add: processOrder_def post_request_def)

lemma process_calls_stored:
  assumes "lookup_ext db (EFR_OrderID req) = Some row" "\<forall>e\<in>set es. x_lookup_ok e"
  shows "process_calls True db (post_request req) es =
           (db, replicate (length es) (Json (stored_response row)))"
  using assms(2)
proof (induction es)
  case Nil
  show ?case by simp
next
  case (Cons e es)
  then show ?case
    using processOrder_stored [OF assms(1), of e] by simp
qed

text \<open>A call that finds no outcome and answers with a payload has stored that outcome.\<close>

lemma processOrder_fresh:
  assumes "lookup_ext db0 (EFR_OrderID req) = None"
    and "processOrder chk db0 (post_request req) e0 = (db, Json resp0)"
  shows "\<exists>row. lookup_ext db (EFR_OrderID req) = Some row
           \<and> stored_response row =
               resp0\<lparr>Resp_Data :=
                 map_option
                   (\<lambda>d. d\<lparr>SD_ProcessedAt := Format jakarta (timestamp_column (x_now_stored e0))\<rparr>)
                   (Resp_Data resp0)\<rparr>"
  using assms
  by (auto simp add: processOrder_def post_request_def Let_def insert_ext_def lookup_ext_def
      find_append_new stored_response_def split: if_splits)

section \<open>Claims\<close>

subsection \<open>C1: duplicate deliveries and the client-side toggle\<close>

text \<open>
  C1 (as amended). Take any schedule of deliveries and task runs, started on any store
  with no task waiting, and any order. With the client-side toggle ON, if for every
  delivery for that order the status update, the attempt insert and the count query go
  through, then no delivery after the first one for that order starts a dispatch, the
  first one starts a dispatch exactly when the store held no attempt row for the order
  (so that the count after its insert is 1), and at most one outbound request is sent
  for the order. With the toggle OFF, if for every delivery for that order the status
  update goes through, every delivery for the order starts a dispatch.
\<close>

theorem client_idempotency_dispatch:
  "((\<forall>a\<in>set acts. delivery_for orderID a \<longrightarrow> action_env_ok a) \<longrightarrow>
       dispatched orderID (run True (init_sys db) acts) =
         (case deliveries orderID acts of 0 \<Rightarrow> []
          | Suc k \<Rightarrow> (count_attempts db orderID = 0) # replicate k False)
       \<and> calls_for orderID (run True (init_sys db) acts) \<le> 1)
   \<and> ((\<forall>a\<in>set acts. delivery_for orderID a \<longrightarrow> action_update_ok a) \<longrightarrow>
       dispatched orderID (run False (init_sys db) acts) =
         replicate (deliveries orderID acts) True)"
proof (intro conjI impI)
  assume ok: "\<forall>a\<in>set acts. delivery_for orderID a \<longrightarrow> action_env_ok a"
  have d0: "dispatched orderID (init_sys db) = []" by (simp add: dispatched_def init_sys_def)
  have s0: "sys_db (init_sys db) = db" by (simp add: init_sys_def)
  from run_on [OF waiting_inv_init ok, of db] d0
  show d: "dispatched orderID (run True (init_sys db) acts) =
         (case deliveries orderID acts of 0 \<Rightarrow> []
          | Suc k \<Rightarrow> (count_attempts db orderID = 0) # replicate k False)"
    unfolding s0 by simp
  have "calls_for orderID (init_sys db) + waiting_for orderID (init_sys db)
          \<le> started_for orderID (init_sys db)"
    by (simp add: calls_for_def waiting_for_def init_sys_def)
  moreover have "list_all counted_ok (pending (init_sys db))"
    by (simp add: init_sys_def)
  ultimately have "calls_for orderID (run True (init_sys db) acts)
          + waiting_for orderID (run True (init_sys db) acts)
          \<le> started_for orderID (run True (init_sys db) acts)"
    by (rule run_calls)
  then have "calls_for orderID (run True (init_sys db) acts)
          \<le> started_for orderID (run True (init_sys db) acts)" by simp
  also have "\<dots> \<le> 1"
    unfolding started_for_def d by (cases "deliveries orderID acts") simp_all
  finally show "calls_for orderID (run True (init_sys db) acts) \<le> 1" .
next
  assume ok: "\<forall>a\<in>set acts. delivery_for orderID a \<longrightarrow> action_update_ok a"
  have d0: "dispatched orderID (init_sys db) = []" by (simp add: dispatched_def init_sys_def)
  from run_off [OF ok, of "init_sys db"] d0
  show "dispatched orderID (run False (init_sys db) acts) = replicate (deliveries orderID acts) True"
    by simp
qed

text \<open>
  The schedule \<open>three_deliveries\<close> meets both hypotheses: ON gives one dispatch, by the
  first delivery; OFF gives three.
\<close>

theorem client_idempotency_dispatch_witness:
  "list_all action_env_ok (filter (delivery_for ''o1'') three_deliveries)
   \<and> list_all action_update_ok (filter (delivery_for ''o1'') three_deliveries)
   \<and> dispatched ''o1'' (run True (init_sys sample_db) three_deliveries) = [True, False, False]
   \<and> calls_for ''o1'' (run True (init_sys sample_db) three_deliveries) \<le> 1
   \<and> dispatched ''o1'' (run False (init_sys sample_db) three_deliveries) = [True, True, True]"
proof -
  have h1: "\<forall>a\<in>set three_deliveries. delivery_for ''o1'' a \<longrightarrow> action_env_ok a"
    by (simp add: three_deliveries_def handler_ok_def)
  have h2: "\<forall>a\<in>set three_deliveries. delivery_for ''o1'' a \<longrightarrow> action_update_ok a"
    by (simp add: three_deliveries_def handler_ok_def)
  have k: "deliveries ''o1'' three_deliveries = Suc (Suc (Suc 0))"
    by (simp add: deliveries_def three_deliveries_def sample_msg_def)
  have c: "count_attempts sample_db ''o1'' = 0"
    by (simp add: count_attempts_def sample_db_def empty_db_def)
  have "dispatched ''o1'' (run True (init_sys sample_db) three_deliveries) = [True, False, False]
     \<and> calls_for ''o1'' (run True (init_sys sample_db) three_deliveries) \<le> 1
     \<and> dispatched ''o1'' (run False (init_sys sample_db) three_deliveries) = [True, True, True]"
    using h1 h2 client_idempotency_dispatch [of three_deliveries "''o1''" sample_db] k c
    by simp
  moreover have "list_all action_env_ok (filter (delivery_for ''o1'') three_deliveries)"
    using h1 by (simp add: list_all_iff)
  moreover have "list_all action_update_ok (filter (delivery_for ''o1'') three_deliveries)"
    using h2 by (simp add: list_all_iff)
  ultimately show ?thesis by simp
qed

text \<open>
  C1 as stated, for every run, fails where a statement fails. With the toggle ON, a
  second delivery whose count query returns an error is not stopped by the guard
  \<^verbatim>\<open>err == nil && attemptCount > 1\<close>: both deliveries start a dispatch and two requests go
  out. With the toggle OFF, a delivery whose status update fails returns before it
  dispatches.
\<close>

theorem client_idempotency_dispatch_counterexample:
  "dispatched ''o1'' (run True (init_sys sample_db) count_query_fails) = [True, True]
   \<and> map EFR_OrderID (called (run True (init_sys sample_db) count_query_fails)) = [''o1'', ''o1'']
   \<and> dispatched ''o1'' (run False (init_sys sample_db) update_fails) = [False]"
  by code_simp

subsection \<open>C2: repeated process-order calls with the server-side toggle ON\<close>

text \<open>
  C2 (as amended). With the server-side toggle ON, when the lookup of each repeated call
  succeeds: if the store holds an outcome for the order identifier, every call leaves the
  store as it is and answers with the payload built from the first stored row alone,
  whatever the call would have drawn and whenever it runs, so all these answers are
  identical. After a first call that found no outcome and answered with a payload, these
  later answers have the first answer's status, error, order identifier and vendor
  identifier; their \<open>processed_at\<close> is not the clock reading that the first answer
  carried, printed in the zone of the process, but the reading handed to the insert,
  as the column kept it (the nearest whole second) and printed in the zone of Jakarta.
\<close>

theorem stored_outcome_returned:
  assumes "\<forall>e\<in>set es. x_lookup_ok e"
  shows "(lookup_ext db (EFR_OrderID req) = Some row \<longrightarrow>
            process_calls True db (post_request req) es =
              (db, replicate (length es) (Json (stored_response row))))
     \<and> (lookup_ext db0 (EFR_OrderID req) = None
          \<and> processOrder True db0 (post_request req) e0 = (db, Json resp0) \<longrightarrow>
            process_calls True db (post_request req) es =
              (db, replicate (length es)
                 (Json (resp0\<lparr>Resp_Data :=
                    map_option
                      (\<lambda>d. d\<lparr>SD_ProcessedAt :=
                              Format jakarta (timestamp_column (x_now_stored e0))\<rparr>)
                      (Resp_Data resp0)\<rparr>))))"
proof (intro conjI impI)
  assume "lookup_ext db (EFR_OrderID req) = Some row"
  then show "process_calls True db (post_request req) es =
              (db, replicate (length es) (Json (stored_response row)))"
    using assms by (rule process_calls_stored)
next
  assume a: "lookup_ext db0 (EFR_OrderID req) = None
          \<and> processOrder True db0 (post_request req) e0 = (db, Json resp0)"
  then obtain row where r: "lookup_ext db (EFR_OrderID req) = Some row"
    and s: "stored_response row =
         resp0\<lparr>Resp_Data :=
           map_option
                   (\<lambda>d. d\<lparr>SD_ProcessedAt := Format jakarta (timestamp_column (x_now_stored e0))\<rparr>)
                   (Resp_Data resp0)\<rparr>"
    using processOrder_fresh [of db0 req True e0 db resp0] by auto
  from process_calls_stored [OF r assms] s
  show "process_calls True db (post_request req) es =
              (db, replicate (length es)
                 (Json (resp0\<lparr>Resp_Data :=
                    map_option
                      (\<lambda>d. d\<lparr>SD_ProcessedAt :=
                              Format jakarta (timestamp_column (x_now_stored e0))\<rparr>)
                      (Resp_Data resp0)\<rparr>)))"
    by simp
qed

text \<open>
  A first call on the empty store, then three more calls: the first answer shows
  the reading at 1700000000.503 s, each later one shows 1700000001.000 s, which is what
  the column kept of the reading at 1700000000.501 s handed to the insert.
\<close>

theorem stored_outcome_returned_witness:
  "list_all x_lookup_ok later_calls
   \<and> processOrder True empty_db (post_request sample_request) first_call =
       (after_first_call, Json first_response)
   \<and> process_calls True after_first_call (post_request sample_request) later_calls =
       (after_first_call, replicate 3 (Json later_response))
   \<and> lookup_ext after_first_call (EFR_OrderID sample_request) = Some stored_row
   \<and> stored_response stored_row = later_response"
proof -
  have r: "lookup_ext after_first_call (EFR_OrderID sample_request) = Some stored_row"
    by code_simp
  have sr: "stored_response stored_row = later_response"
    by code_simp
  have l: "\<forall>e\<in>set later_calls. x_lookup_ok e"
    by (simp add: later_calls_def later_call_def first_call_def)
  have n: "lookup_ext empty_db (EFR_OrderID sample_request) = None"
    by (simp add: lookup_ext_def empty_db_def)
  have f: "processOrder True empty_db (post_request sample_request) first_call =
      (after_first_call, Json first_response)"
    by code_simp
  have t: "first_response\<lparr>Resp_Data :=
        map_option
          (\<lambda>d. d\<lparr>SD_ProcessedAt := Format jakarta (timestamp_column (x_now_stored first_call))\<rparr>)
          (Resp_Data first_response)\<rparr> = later_response"
    by code_simp
  have k: "length later_calls = 3" by (simp add: later_calls_def)
  have "process_calls True after_first_call (post_request sample_request) later_calls =
      (after_first_call, replicate (length later_calls)
         (Json (first_response\<lparr>Resp_Data :=
            map_option
          (\<lambda>d. d\<lparr>SD_ProcessedAt := Format jakarta (timestamp_column (x_now_stored first_call))\<rparr>)
              (Resp_Data first_response)\<rparr>)))"
    using stored_outcome_returned [OF l, THEN conjunct2] n f by blast
  then have "process_calls True after_first_call (post_request sample_request) later_calls =
      (after_first_call, replicate 3 (Json later_response))"
    unfolding t k .
  moreover have "list_all x_lookup_ok later_calls"
    using l by (simp add: list_all_iff)
  moreover have "process_calls True after_first_call (post_request sample_request) later_calls =
      (after_first_call, replicate (length later_calls) (Json (stored_response stored_row)))"
    using stored_outcome_returned [OF l, THEN conjunct1] r by blast
  ultimately show ?thesis using f r sr by simp
qed

text \<open>
  C2 as stated includes the first call's payload among the identical ones. The first call
  stores \<^verbatim>\<open>processedAt := time.Now()\<close> and then formats a new \<^verbatim>\<open>time.Now()\<close> into its
  answer; a later call formats the time read from the row, a whole second. Here the
  first answer shows millisecond 503 of its second and the repeated one millisecond 000
  of the next, so the payloads differ in \<open>processed_at\<close>.
\<close>

theorem stored_outcome_returned_counterexample:
  "snd (processOrder True empty_db (post_request sample_request) first_call) =
     Json \<lparr> Resp_Status = ''success'', Resp_Error = [],
            Resp_Data = Some \<lparr> SD_OrderID = ''o1'', SD_VendorOrderID = 1,
                               SD_ProcessedAt = (1700025200503, 420) \<rparr> \<rparr>
   \<and> snd (processOrder True after_first_call (post_request sample_request) later_call) =
     Json \<lparr> Resp_Status = ''success'', Resp_Error = [],
            Resp_Data = Some \<lparr> SD_OrderID = ''o1'', SD_VendorOrderID = 1,
                               SD_ProcessedAt = (1700025201000, 420) \<rparr> \<rparr>
   \<and> snd (processOrder True after_first_call (post_request sample_request) later_call)
       \<noteq> snd (processOrder True empty_db (post_request sample_request) first_call)"
  by code_simp

subsection \<open>C3: one payment record per order\<close>

text \<open>
  C3 (as amended). Start from a payment table that satisfies its unique key and handle
  any list of trigger-payment requests, each with any publish multiplicity. Then the
  table holds exactly one record for an order identifier if it held one before or the
  store statement of some request for that order went through, and none otherwise: never
  two. When a record for the order exists, a further request for it leaves the table as
  it is; its store statement, unless it fails to go through for a reason of its own,
  reports no error on account of the existing record (the handler's store event is
  \<open>Stored\<close>, not \<open>Store_failed\<close>), and the request is answered with success.
\<close>

theorem one_payment_record:
  assumes "distinct (map Pay_OrderID (internal_payments db))"
  shows "length (payments_of orderID (trigger_all timeoutMs db calls)) =
           (if orderID \<in> Pay_OrderID ` set (internal_payments db) \<or> list_ex (stores orderID) calls
            then 1 else 0)
     \<and> (orderID \<in> Pay_OrderID ` set (internal_payments db) \<and> PR_OrderID req = orderID \<longrightarrow>
          internal_payments (fst (triggerPaymentPaid timeoutMs db (post_request req) e))
            = internal_payments db
          \<and> snd (snd (triggerPaymentPaid timeoutMs db (post_request req) e))
            = Json \<lparr> PResp_Status = ''success'' \<rparr>
          \<and> (p_store_ok e \<longrightarrow>
               map_option internal_payments
                   (upsert_payment db orderID (PR_PaidAmount req) (p_paidAt e) True)
                 = Some (internal_payments db)
               \<and> last (fst (snd (triggerPaymentPaid timeoutMs db (post_request req) e)))
                 = Stored))"
proof (intro conjI impI)
  show "length (payments_of orderID (trigger_all timeoutMs db calls)) =
           (if orderID \<in> Pay_OrderID ` set (internal_payments db) \<or> list_ex (stores orderID) calls
            then 1 else 0)"
    unfolding payments_of_def
    using length_filter_key [OF trigger_all_distinct [OF assms, of timeoutMs calls], of orderID]
    by (auto simp add: trigger_all_ids list_ex_iff)
next
  assume c: "orderID \<in> Pay_OrderID ` set (internal_payments db) \<and> PR_OrderID req = orderID"
  show "internal_payments (fst (triggerPaymentPaid timeoutMs db (post_request req) e))
            = internal_payments db"
  proof (cases "p_store_ok e")
    case True
    with c show ?thesis by (simp add: trigger_payments post_request_def upsert_conflict)
  next
    case False
    then show ?thesis by (simp add: trigger_payments post_request_def upsert_fails)
  qed
next
  show "snd (snd (triggerPaymentPaid timeoutMs db (post_request req) e))
            = Json \<lparr> PResp_Status = ''success'' \<rparr>"
    by (simp add: triggerPaymentPaid_def post_request_def Let_def)
next
  assume c: "orderID \<in> Pay_OrderID ` set (internal_payments db) \<and> PR_OrderID req = orderID"
  then show "map_option internal_payments
                   (upsert_payment db orderID (PR_PaidAmount req) (p_paidAt e) True)
                 = Some (internal_payments db)"
    by (simp add: upsert_conflict)
next
  assume c: "orderID \<in> Pay_OrderID ` set (internal_payments db) \<and> PR_OrderID req = orderID"
    and ok: "p_store_ok e"
  then show "last (fst (snd (triggerPaymentPaid timeoutMs db (post_request req) e))) = Stored"
    by (simp add: triggerPaymentPaid_def post_request_def Let_def upsert_conflict)
qed

text \<open>
  Three triggers for the sample order, the first with a failing store statement: one
  record. A further trigger after one record is stored changes nothing, and its store
  statement reports no error.
\<close>

theorem one_payment_record_witness:
  "distinct (map Pay_OrderID (internal_payments empty_db))
   \<and> length (payments_of ''o1'' (trigger_all 200 empty_db three_triggers)) = 1
   \<and> internal_payments
        (fst (triggerPaymentPaid 200 after_one_trigger (post_request sample_payment) payment_ok))
       = internal_payments after_one_trigger
   \<and> length (internal_payments after_one_trigger) = 1
   \<and> last (fst (snd
        (triggerPaymentPaid 200 after_one_trigger (post_request sample_payment) payment_ok)))
       = Stored"
proof -
  have d: "distinct (map Pay_OrderID (internal_payments empty_db))"
    by (simp add: empty_db_def)
  have s: "list_ex (stores ''o1'') three_triggers"
    by (simp add: three_triggers_def stores_def post_request_def sample_payment_def payment_ok_def)
  have d1: "distinct (map Pay_OrderID (internal_payments after_one_trigger))"
    unfolding after_one_trigger_def by (rule trigger_all_distinct [OF d])
  have "''o1'' \<in> Pay_OrderID ` set (internal_payments after_one_trigger)"
    unfolding after_one_trigger_def trigger_all_ids
    by (simp add: stores_def post_request_def sample_payment_def payment_ok_def)
  then have m: "''o1'' \<in> Pay_OrderID ` set (internal_payments after_one_trigger)
      \<and> PR_OrderID sample_payment = ''o1''"
    by (simp add: sample_payment_def)
  have ok: "p_store_ok payment_ok" by (simp add: payment_ok_def)
  have n: "length (internal_payments after_one_trigger) = 1"
    by code_simp
  have "length (payments_of ''o1'' (trigger_all 200 empty_db three_triggers)) = 1"
    using one_payment_record [OF d, of "''o1''" 200 three_triggers sample_payment payment_ok] s
    by simp
  moreover have "internal_payments
        (fst (triggerPaymentPaid 200 after_one_trigger (post_request sample_payment) payment_ok))
       = internal_payments after_one_trigger
     \<and> last (fst (snd
        (triggerPaymentPaid 200 after_one_trigger (post_request sample_payment) payment_ok)))
       = Stored"
    using one_payment_record [OF d1, of "''o1''" 200 "[]" sample_payment payment_ok] m ok
    by simp
  ultimately show ?thesis using d n by simp
qed

text \<open>
  C3 as stated, for every request, fails where the store statement fails: the handler
  logs the error and answers with success, and no record is left for the order.
\<close>

theorem one_payment_record_counterexample:
  "length (payments_of ''o1'' (trigger_all 200 empty_db
        [(post_request sample_payment, payment_all_fail)])) = 0"
  by code_simp

subsection \<open>C4: the number of attempts of a call that always times out\<close>

text \<open>
  C4 says that a payment trigger that times out on every attempt is attempted exactly 4
  times before the iteration is reported as a timeout. The loop
  \<^verbatim>\<open>for retry := 0; retry < 3; retry++\<close> calls \<^verbatim>\<open>triggerPayment\<close> 3 times: once at
  \<^verbatim>\<open>retry == 0\<close> and twice after a wait of 100 ms; the line it then sends reads
  \<^verbatim>\<open>TIMEOUT after 3 retries\<close>. (By \<open>iteration_calls_le\<close> no iteration calls more than 3
  times.)
\<close>

theorem always_timeout_three_calls:
  "trigger_calls (runSimulationIteration 1 always_timeout) = 3
   \<and> results_of (runSimulationIteration 1 always_timeout) =
       [''Iteration 1 [AB12CD]: TIMEOUT after 3 retries - Order: o1'',
        ''Iteration 1 [AB12CD]: FAILED - Order: o1'']"
  by code_simp

subsection \<open>C5: the number of results of an iteration\<close>

text \<open>
  C5 says that every iteration sends exactly one result. An iteration whose payment
  trigger is answered with status 500 sends two: the line \<^verbatim>\<open>FAILED payment\<close> inside the
  loop and, since \<^verbatim>\<open>success\<close> is still false after the \<^verbatim>\<open>break\<close>, the line \<^verbatim>\<open>FAILED\<close>
  after it. An iteration that times out three times sends a \<^verbatim>\<open>TIMEOUT\<close> line and then
  the \<^verbatim>\<open>FAILED\<close> line, which \<^verbatim>\<open>runSimulator\<close> reads as a timeout and as neither success
  nor timeout. (By \<open>iteration_result_count\<close> an iteration sends one line when the order
  cannot be created or a payment call succeeds, and two otherwise.)
\<close>

theorem payment_rejected_two_results:
  "results_of (runSimulationIteration 7 payment_rejected) =
     [''Iteration 7 [AB12CD]: FAILED payment - payment service returned status: 500'',
      ''Iteration 7 [AB12CD]: FAILED - Order: o1'']
   \<and> map classify (results_of (runSimulationIteration 7 always_timeout)) = [TIMEOUT, OTHER]"
  by code_simp

subsection \<open>C6: the attempt number of an inserted row\<close>

text \<open>
  C6 (as amended). The row the message handler appends on a delivery always carries
  attempt number 1, whatever the number of rows the order already has. The dispatch
  path computes its number when its count query runs: the number of rows that exist for
  the order at that moment plus one, and 1 when the query fails. The row it appends
  later carries that number, whatever the store holds by then: rows inserted between
  its count query and its insert are not counted.
\<close>

theorem attempt_number_stored:
  "(h_update_ok e \<and> h_insert_ok e \<longrightarrow>
      fulfillment_attempts (fst (handlePaymentPaid idem db (Some m) e)) =
        fulfillment_attempts db @
          [\<lparr> FA_ID = next_attempt_id db, FA_OrderID = PPM_OrderID m, FA_AttemptNumber = 1,
             FA_Payload = Sprintf_payload (PPM_OrderID m) 0 [], FA_AttemptedAt = h_db_now e \<rparr>])
   \<and> (d_select_ok e' \<and> select_order db orderID = Some order \<longrightarrow>
      processFulfillment_count db orderID correlationID e' =
        Some (\<lparr> EFR_OrderID = Order_ID order,
                 EFR_DestinationPhone = Order_DestinationPhone order,
                 EFR_Amount = Order_Amount order, EFR_CorrelationID = correlationID \<rparr>,
              if d_count_ok e' then count_attempts db orderID + 1 else 1))
   \<and> (d_insert_ok e'' \<longrightarrow>
      fulfillment_attempts
          (fst (processFulfillment_insert db' orderID fulfillmentReq attemptNumber e'')) =
        fulfillment_attempts db' @
          [\<lparr> FA_ID = next_attempt_id db', FA_OrderID = orderID,
             FA_AttemptNumber = attemptNumber,
             FA_Payload = Marshal_payload fulfillmentReq, FA_AttemptedAt = d_db_now e'' \<rparr>])"
  by (auto simp add: handlePaymentPaid_def processFulfillment_count_def
      processFulfillment_insert_def Let_def insert_attempt_def split: post_result.splits)

text \<open>
  After two deliveries for the sample order (toggle OFF) two tasks wait. Each counts
  two rows and computes 3. The second task to insert finds three rows and appends a
  row numbered 3 all the same: the rows are numbered 1, 1, 3, 3. When the first task
  finishes before the second counts, they are numbered 1, 1, 3, 4.
\<close>

theorem attempt_number_stored_witness:
  "fulfillment_attempts
       (fst (handlePaymentPaid True after_first_delivery (Some sample_msg) handler_ok)) =
     fulfillment_attempts after_first_delivery @
       [\<lparr> FA_ID = 2, FA_OrderID = ''o1'', FA_AttemptNumber = 1,
          FA_Payload = Sprintf_payload ''o1'' 0 [], FA_AttemptedAt = 1700000001000000000 \<rparr>]
   \<and> processFulfillment_count after_two_deliveries ''o1'' ''AB12CD'' dispatch_ok =
       Some (sample_request, 3)
   \<and> map FA_AttemptNumber (fulfillment_attempts
        (fst (processFulfillment_insert after_other_insert ''o1'' sample_request 3 dispatch_ok)))
       = [1, 1, 3, 3]
   \<and> map FA_AttemptNumber (fulfillment_attempts
        (sys_db (run False (init_sys sample_db) racing_tasks))) = [1, 1, 3, 3]
   \<and> map FA_AttemptNumber (fulfillment_attempts
        (sys_db (run False (init_sys sample_db) tasks_in_turn))) = [1, 1, 3, 4]"
proof -
  have n: "next_attempt_id after_first_delivery = 2"
    by code_simp
  have c: "count_attempts after_two_deliveries ''o1'' = 2"
    by code_simp
  have s: "select_order after_two_deliveries ''o1'' = Some (sample_order\<lparr>Order_Status := ''paid''\<rparr>)"
    by code_simp
  have a: "map FA_AttemptNumber (fulfillment_attempts after_other_insert) = [1, 1, 3]"
    by code_simp
  have h: "h_update_ok handler_ok \<and> h_insert_ok handler_ok" by (simp add: handler_ok_def)
  have d: "d_select_ok dispatch_ok \<and> d_insert_ok dispatch_ok \<and> d_count_ok dispatch_ok"
    by (simp add: dispatch_ok_def)
  have r: "\<lparr> EFR_OrderID = Order_ID (sample_order\<lparr>Order_Status := ''paid''\<rparr>),
             EFR_DestinationPhone = Order_DestinationPhone (sample_order\<lparr>Order_Status := ''paid''\<rparr>),
             EFR_Amount = Order_Amount (sample_order\<lparr>Order_Status := ''paid''\<rparr>),
             EFR_CorrelationID = ''AB12CD'' \<rparr> = sample_request"
    by (simp add: sample_order_def sample_request_def)
  note t1 = attempt_number_stored [of handler_ok True after_first_delivery sample_msg]
  note t = attempt_number_stored [of _ _ after_two_deliveries _
      dispatch_ok "''o1''" "sample_order\<lparr>Order_Status := ''paid''\<rparr>"
      "''AB12CD''" dispatch_ok after_other_insert sample_request 3]
  have "fulfillment_attempts
       (fst (handlePaymentPaid True after_first_delivery (Some sample_msg) handler_ok)) =
     fulfillment_attempts after_first_delivery @
       [\<lparr> FA_ID = 2, FA_OrderID = ''o1'', FA_AttemptNumber = 1,
          FA_Payload = Sprintf_payload ''o1'' 0 [], FA_AttemptedAt = 1700000001000000000 \<rparr>]"
    using t1 h by (simp add: n sample_msg_def handler_ok_def)
  moreover have "processFulfillment_count after_two_deliveries ''o1'' ''AB12CD'' dispatch_ok =
       Some (sample_request, 3)"
    using t d s by (simp add: c r sample_order_def sample_request_def)
  moreover have "map FA_AttemptNumber (fulfillment_attempts
        (fst (processFulfillment_insert after_other_insert ''o1'' sample_request 3 dispatch_ok)))
       = [1, 1, 3, 3]"
    using t d by (simp add: a)
  moreover have "map FA_AttemptNumber (fulfillment_attempts
        (sys_db (run False (init_sys sample_db) racing_tasks))) = [1, 1, 3, 3]"
    by code_simp
  moreover have "map FA_AttemptNumber (fulfillment_attempts
        (sys_db (run False (init_sys sample_db) tasks_in_turn))) = [1, 1, 3, 4]"
    by code_simp
  ultimately show ?thesis by simp
qed

text \<open>
  C6 as stated fails for the handler's row: at the second delivery one row exists for the
  order, so the count plus one is 2, and the row appended is numbered 1. It fails for
  the dispatch path's row when another row is inserted between the count and the insert:
  the second of two racing tasks inserts while three rows exist, so the count at
  insertion time plus one is 4, and the row appended is numbered 3.
\<close>

theorem attempt_number_stored_counterexample:
  "fulfillment_attempts (fst (handlePaymentPaid True after_first_delivery (Some sample_msg) handler_ok)) =
        fulfillment_attempts after_first_delivery @
          [\<lparr> FA_ID = 2, FA_OrderID = ''o1'', FA_AttemptNumber = 1,
             FA_Payload = Sprintf_payload ''o1'' 0 [], FA_AttemptedAt = 1700000001000000000 \<rparr>]
   \<and> count_attempts after_first_delivery ''o1'' + 1 = 2
   \<and> map FA_AttemptNumber (fulfillment_attempts
        (sys_db (run False (init_sys sample_db) racing_tasks))) = [1, 1, 3, 3]
   \<and> map FA_AttemptNumber (fulfillment_attempts
        (fst (processFulfillment_insert after_other_insert ''o1'' sample_request 3 dispatch_ok)))
       = map FA_AttemptNumber (fulfillment_attempts after_other_insert) @ [3]
   \<and> count_attempts after_other_insert ''o1'' + 1 = 4"
  by code_simp

subsection \<open>C7: the fields of a created order\<close>

text \<open>
  C7. Every order that \<^verbatim>\<open>GenerateRandomOrder\<close> returns (the order \<^verbatim>\<open>createOrder\<close> stores,
  its creation time cut to what the column keeps, and answers with, by
  \<open>createOrder_stores_generated\<close>) has total = amount + admin fee, an
  operator and admin fee that are one of indosat/100, xl/200, three/300, an amount among
  1000, 2000, ..., 9000, and the status pending.
\<close>

theorem generated_order_fields:
  assumes "GenerateRandomOrder e = Some order"
  shows "Order_Total order = Order_Amount order + Order_AdminFee order
     \<and> (Order_Operator order, Order_AdminFee order)
          \<in> {(''indosat'', 100), (''xl'', 200), (''three'', 300)}
     \<and> Order_Amount order \<in> {1000, 2000, 3000, 4000, 5000, 6000, 7000, 8000, 9000}
     \<and> Order_Status order = ''pending''"
proof -
  from assms obtain operator amount where
    op: "index operators (now_operator e smod 3) = Some operator" and
    am: "index amounts (now_amount e smod 9) = Some amount" and
    ord: "Order_Operator order = operator" "Order_Amount order = amount"
      "Order_AdminFee order = adminFee_of operator"
      "Order_Total order = amount + adminFee_of operator" "Order_Status order = ''pending''"
    by (auto simp: GenerateRandomOrder_def Let_def split: option.splits)
  have "Order_Total order = Order_Amount order + Order_AdminFee order"
    using ord by simp
  moreover have "(Order_Operator order, Order_AdminFee order)
      \<in> {(''indosat'', 100), (''xl'', 200), (''three'', 300)}"
    using index_operators [OF op] ord by (auto simp: adminFee_of_def)
  moreover have "Order_Amount order \<in> {1000, 2000, 3000, 4000, 5000, 6000, 7000, 8000, 9000}"
    using index_amounts [OF am] ord by simp
  ultimately show ?thesis using ord by simp
qed

text \<open>The sample clock readings give the sample order.\<close>

theorem generated_order_fields_witness:
  "GenerateRandomOrder sample_order_env = Some sample_order
   \<and> Order_Total sample_order = Order_Amount sample_order + Order_AdminFee sample_order
   \<and> (Order_Operator sample_order, Order_AdminFee sample_order) = (''indosat'', 100)
   \<and> Order_Amount sample_order = 4000
   \<and> Order_Status sample_order = ''pending''"
proof -
  have g: "GenerateRandomOrder sample_order_env = Some sample_order"
    by code_simp
  from generated_order_fields [OF g] g show ?thesis
    by (simp add: sample_order_def)
qed

subsection \<open>C8: the Payment Service always answers with success\<close>

text \<open>
  C8. For every POST request whose body decodes, whatever the outcome of each publish
  and of the store statement, the handler first sleeps the configured delay and answers
  with the JSON body \<open>status = success\<close>; it calls publish exactly as many times as the
  draw decides and sends exactly one store statement: a failure is followed by no second
  try.
\<close>

theorem trigger_payment_always_success:
  assumes "Method r = ''POST''" "Body r = Some req"
  shows "\<exists>db' evs. triggerPaymentPaid timeoutMs db r e =
           (db', Slept_ms timeoutMs # evs, Json \<lparr> PResp_Status = ''success'' \<rparr>)
         \<and> length (filter is_event_publish evs) = nat (DeterminePublishCount (p_chance e))
         \<and> length (filter is_event_store evs) = 1"
proof -
  have f: "filter is_event_publish
        (map (\<lambda>i. if p_publish_ok e i then Published m else Publish_failed m) xs)
      = map (\<lambda>i. if p_publish_ok e i then Published m else Publish_failed m) xs" for m xs
    by (induction xs) (simp_all add: is_event_publish_def)
  have g: "filter is_event_store
        (map (\<lambda>i. if p_publish_ok e i then Published m else Publish_failed m) xs) = []" for m xs
    by (induction xs) (simp_all add: is_event_store_def)
  show ?thesis
    using assms
    by (simp add: triggerPaymentPaid_def Let_def f g is_event_publish_def is_event_store_def
        split: option.splits)
qed

text \<open>Two publishes that fail and a store statement that fails: the answer is success.\<close>

theorem trigger_payment_always_success_witness:
  "triggerPaymentPaid 200 empty_db (post_request sample_payment) payment_all_fail =
     (empty_db,
      [Slept_ms 200,
       Publish_failed \<lparr> PPM_OrderID = ''o1'', PPM_PaidAmount = 4100,
                        PPM_PaidAt = 1700000000200000000, PPM_CorrelationID = ''QW34ER'' \<rparr>,
       Publish_failed \<lparr> PPM_OrderID = ''o1'', PPM_PaidAmount = 4100,
                        PPM_PaidAt = 1700000000200000000, PPM_CorrelationID = ''QW34ER'' \<rparr>,
       Store_failed],
      Json \<lparr> PResp_Status = ''success'' \<rparr>)"
proof -
  have m: "Method (post_request sample_payment) = ''POST''"
    and b: "Body (post_request sample_payment) = Some sample_payment"
    by (simp_all add: post_request_def)
  from trigger_payment_always_success [OF m b, of 200 empty_db payment_all_fail]
  obtain db' evs where
    t: "triggerPaymentPaid 200 empty_db (post_request sample_payment) payment_all_fail =
           (db', Slept_ms 200 # evs, Json \<lparr> PResp_Status = ''success'' \<rparr>)"
    by blast
  have "fst (triggerPaymentPaid 200 empty_db (post_request sample_payment) payment_all_fail) = empty_db"
    by code_simp
  moreover have "fst (snd (triggerPaymentPaid 200 empty_db (post_request sample_payment) payment_all_fail))
      = [Slept_ms 200,
       Publish_failed \<lparr> PPM_OrderID = ''o1'', PPM_PaidAmount = 4100,
                        PPM_PaidAt = 1700000000200000000, PPM_CorrelationID = ''QW34ER'' \<rparr>,
       Publish_failed \<lparr> PPM_OrderID = ''o1'', PPM_PaidAmount = 4100,
                        PPM_PaidAt = 1700000000200000000, PPM_CorrelationID = ''QW34ER'' \<rparr>,
       Store_failed]"
    by code_simp
  ultimately show ?thesis using t by simp
qed

subsection \<open>C9: updates of an order touch its status only\<close>

text \<open>
  C9. The handler's update to \<^verbatim>\<open>paid\<close> and the dispatch task's update to
  \<^verbatim>\<open>fulfilment\<close> leave the order table with the same rows in the same places: every row
  keeps its id, amount, admin fee, type, operator, destination phone, total and
  creation time, and a row whose id is not the targeted one is unchanged altogether.
  Over any schedule of deliveries and task runs, every order row is still there with
  all fields but the status as they were: no row is deleted.
\<close>

theorem order_updates_touch_status_only:
  "list_all2 (frame (PPM_OrderID m)) (internal_orders db)
      (internal_orders (fst (handlePaymentPaid idem db (Some m) e)))
   \<and> list_all2 (frame orderID) (internal_orders db)
      (internal_orders (fst (processFulfillment db orderID correlationID e')))
   \<and> list_all2 same_but_status (internal_orders (sys_db s))
      (internal_orders (sys_db (run idem s acts)))"
  by (simp add: handle_frame process_frame run_same)

text \<open>
  On the sample store, a delivery and a dispatch for order \<open>o1\<close>: its row changes in
  the status alone, the row of \<open>o2\<close> stays as it is.
\<close>

theorem order_updates_touch_status_only_witness:
  "list_all2 (frame ''o1'') [sample_order, other_order]
     [sample_order\<lparr>Order_Status := ''paid''\<rparr>, other_order]
   \<and> list_all2 (frame ''o1'') [sample_order, other_order]
     [sample_order\<lparr>Order_Status := ''fulfilment''\<rparr>, other_order]"
proof -
  have m: "PPM_OrderID sample_msg = ''o1''" by (simp add: sample_msg_def)
  have o: "internal_orders sample_db = [sample_order, other_order]"
    by (simp add: sample_db_def empty_db_def)
  have h: "internal_orders (fst (handlePaymentPaid True sample_db (Some sample_msg) handler_ok))
     = [sample_order\<lparr>Order_Status := ''paid''\<rparr>, other_order]"
    by (simp add: handle_orders handler_ok_def update_order_status_def o m set_status_def
        sample_order_def other_order_def)
  have p: "internal_orders (fst (processFulfillment sample_db ''o1'' ''AB12CD'' dispatch_ok))
     = [sample_order\<lparr>Order_Status := ''fulfilment''\<rparr>, other_order]"
    by code_simp
  from order_updates_touch_status_only [of sample_msg sample_db True handler_ok "''o1''"
      "''AB12CD''" dispatch_ok "init_sys sample_db" "[]"]
  show ?thesis unfolding m o h p by simp
qed

subsection \<open>C10: the server-side toggle without a stored outcome\<close>

text \<open>
  C10. For a request whose order identifier has no row in \<^verbatim>\<open>ext_orders\<close>, the handler
  gives the same answer and leaves the same store with the toggle ON as with the toggle
  OFF, for the same draw, clock readings and statement outcomes. (A request that is not
  a POST or whose body does not decode is answered the same way under both settings.)
\<close>

theorem toggle_irrelevant_without_outcome:
  assumes "\<forall>req. Body r = Some req \<longrightarrow> lookup_ext db (EFR_OrderID req) = None"
  shows "processOrder True db r e = processOrder False db r e"
  using assms by (simp add: processOrder_def split: option.splits)

text \<open>
  On a store that holds an outcome for order \<open>o2\<close> only, a request for \<open>o1\<close> is handled
  the same way under both settings and appends one row.
\<close>

theorem toggle_irrelevant_without_outcome_witness:
  "lookup_ext after_other_call (EFR_OrderID sample_request) = None
   \<and> processOrder True after_other_call (post_request sample_request) first_call
       = processOrder False after_other_call (post_request sample_request) first_call
   \<and> map Ext_OrderID (ext_orders
        (fst (processOrder True after_other_call (post_request sample_request) first_call)))
       = [''o2'', ''o1'']"
proof -
  have n: "lookup_ext after_other_call (EFR_OrderID sample_request) = None"
    by code_simp
  then have h: "\<forall>req. Body (post_request sample_request) = Some req
       \<longrightarrow> lookup_ext after_other_call (EFR_OrderID req) = None"
    by (simp add: post_request_def)
  have m: "map Ext_OrderID (ext_orders
        (fst (processOrder True after_other_call (post_request sample_request) first_call)))
       = [''o2'', ''o1'']"
    by code_simp
  from toggle_irrelevant_without_outcome [OF h, of first_call] n m show ?thesis
    by simp
qed

end
